theory Spec2Isabelle
  imports Main "HOL-Library.Sublist"
begin

section \<open>Python values\<close>

text \<open>
  The scraper handles values decoded from JSON text by \<^verbatim>\<open>json.loads\<close>. A float is
  \<open>Finite m e\<close> for the number \<open>m * 2 ^ e\<close> (\<open>Finite 0 e\<close> is \<open>0.0\<close>), \<open>NegZero\<close> for
  \<open>-0.0\<close>, an infinity, or a NaN. A dict is an association list in insertion order; keys decoded
  from JSON text are always \<open>JStr\<close>, other hashable keys arise only from \<^verbatim>\<open>dict(...)\<close> applied
  to a list of pairs. Characters are code points below 256.
\<close>

datatype pyfloat = Finite int int | NegZero | PosInf | NegInf | NaN

datatype json =
    JNull
  | JBool bool
  | JInt int
  | JFloat pyfloat
  | JStr string
  | JArr "json list"
  | JObj "(json \<times> json) list"

datatype py_error = TypeError | ValueError | OverflowError | AttributeError

text \<open>Truth value testing, as \<^verbatim>\<open>bool(x)\<close>, \<^verbatim>\<open>not x\<close> and \<^verbatim>\<open>x or y\<close> use it.\<close>

fun truthy :: "json \<Rightarrow> bool" where
  "truthy JNull = False"
| "truthy (JBool b) = b"
| "truthy (JInt i) = (i \<noteq> 0)"
| "truthy (JFloat f) = (case f of Finite m e \<Rightarrow> m \<noteq> 0 | NegZero \<Rightarrow> False | _ \<Rightarrow> True)"
| "truthy (JStr s) = (s \<noteq> [])"
| "truthy (JArr xs) = (xs \<noteq> [])"
| "truthy (JObj d) = (d \<noteq> [])"

definition py_or :: "json \<Rightarrow> json \<Rightarrow> json" where
  "py_or a b = (if truthy a then a else b)"

section \<open>Dictionaries\<close>

text \<open>
  Python compares dict keys by value: \<^verbatim>\<open>1\<close>, \<^verbatim>\<open>1.0\<close> and \<^verbatim>\<open>True\<close> are one key. A
  string key equals only the same string.
\<close>

definition num_repr :: "json \<Rightarrow> (int \<times> int) option" where
  "num_repr k =
     (case k of
        JBool b \<Rightarrow> Some (if b then 1 else 0, 0)
      | JInt i \<Rightarrow> Some (i, 0)
      | JFloat (Finite m e) \<Rightarrow> Some (m, e)
      | JFloat NegZero \<Rightarrow> Some (0, 0)
      | _ \<Rightarrow> None)"

definition py_key_eq :: "json \<Rightarrow> json \<Rightarrow> bool" where
  "py_key_eq a b =
     (case (num_repr a, num_repr b) of
        (Some (m1, e1), Some (m2, e2)) \<Rightarrow>
          (let e = min e1 e2 in m1 * 2 ^ nat (e1 - e) = m2 * 2 ^ nat (e2 - e))
      | _ \<Rightarrow> a = b)"

fun py_lookup :: "(json \<times> json) list \<Rightarrow> json \<Rightarrow> json option" where
  "py_lookup [] k = None"
| "py_lookup ((k', v) # d) k = (if py_key_eq k' k then Some v else py_lookup d k)"

text \<open>\<^verbatim>\<open>d.get(key)\<close>, \<^verbatim>\<open>d.get(key, default)\<close>, \<^verbatim>\<open>key in d\<close> and
  \<^verbatim>\<open>d.setdefault(key, value)\<close> for a string key; \<^verbatim>\<open>d[k] = v\<close> for any key.\<close>

definition py_get :: "(json \<times> json) list \<Rightarrow> string \<Rightarrow> json" where
  "py_get d k = (case py_lookup d (JStr k) of None \<Rightarrow> JNull | Some v \<Rightarrow> v)"

definition py_get_default :: "(json \<times> json) list \<Rightarrow> string \<Rightarrow> json \<Rightarrow> json" where
  "py_get_default d k dflt = (case py_lookup d (JStr k) of None \<Rightarrow> dflt | Some v \<Rightarrow> v)"

definition py_in :: "string \<Rightarrow> (json \<times> json) list \<Rightarrow> bool" where
  "py_in k d = (py_lookup d (JStr k) \<noteq> None)"

definition py_setdefault :: "(json \<times> json) list \<Rightarrow> string \<Rightarrow> json \<Rightarrow> (json \<times> json) list" where
  "py_setdefault d k v = (if py_in k d then d else d @ [(JStr k, v)])"

fun py_setitem :: "(json \<times> json) list \<Rightarrow> json \<Rightarrow> json \<Rightarrow> (json \<times> json) list" where
  "py_setitem [] k v = [(k, v)]"
| "py_setitem ((k', v') # d) k v =
     (if py_key_eq k' k then (k', v) # d else (k', v') # py_setitem d k v)"

text \<open>
  \<^verbatim>\<open>dict(x)\<close>: a copy of a dict; from a list, one entry per element, which must be a
  sequence of length two with a hashable first component (iterating a string gives its
  characters, iterating a dict its keys); the empty string gives the empty dict; anything else
  raises.
\<close>

definition hashable :: "json \<Rightarrow> bool" where
  "hashable k = (case k of JArr _ \<Rightarrow> False | JObj _ \<Rightarrow> False | _ \<Rightarrow> True)"

definition pair_of_element :: "json \<Rightarrow> py_error + json \<times> json" where
  "pair_of_element x =
     (case x of
        JArr [k, v] \<Rightarrow> if hashable k then Inr (k, v) else Inl TypeError
      | JArr _ \<Rightarrow> Inl ValueError
      | JStr [a, b] \<Rightarrow> Inr (JStr [a], JStr [b])
      | JStr _ \<Rightarrow> Inl ValueError
      | JObj [(k1, _), (k2, _)] \<Rightarrow> Inr (k1, k2)
      | JObj _ \<Rightarrow> Inl ValueError
      | _ \<Rightarrow> Inl TypeError)"

fun dict_from_pairs :: "(json \<times> json) list \<Rightarrow> json list \<Rightarrow> py_error + (json \<times> json) list" where
  "dict_from_pairs d [] = Inr d"
| "dict_from_pairs d (x # xs) =
     (case pair_of_element x of
        Inl e \<Rightarrow> Inl e
      | Inr (k, v) \<Rightarrow> dict_from_pairs (py_setitem d k v) xs)"

definition py_dict :: "json \<Rightarrow> py_error + (json \<times> json) list" where
  "py_dict x =
     (case x of
        JObj d \<Rightarrow> Inr d
      | JArr xs \<Rightarrow> dict_from_pairs [] xs
      | JStr s \<Rightarrow> if s = [] then Inr [] else Inl ValueError
      | _ \<Rightarrow> Inl TypeError)"

section \<open>What the Python runtime and the libraries supply\<close>

text \<open>
  The HTML parser (BeautifulSoup), the JSON decoder and the formatting of values by
  \<^verbatim>\<open>str\<close> are not part of the repository; the functions below take them as parameters.
  \<^item> \<open>max_str_digits\<close>: the interpreter's limit on the digits of a string converted by
    \<^verbatim>\<open>int\<close> (\<open>0\<close>: no limit; CPython checks it for more than 640 digits only);
  \<^item> \<open>py_repr\<close>: \<^verbatim>\<open>str(v)\<close> for a value that is not a string;
  \<^item> \<open>soup_script_string\<close>: the \<^verbatim>\<open>.string\<close> of the first \<^verbatim>\<open>script\<close> node with
    \<^verbatim>\<open>id="SIGI_STATE"\<close> of a document, \<open>None\<close> when there is no such node or it has no string;
  \<^item> \<open>soup_meta_content\<close>: the \<^verbatim>\<open>content\<close> attribute of the first \<^verbatim>\<open>meta\<close> node with the
    given \<^verbatim>\<open>property\<close>, \<open>None\<close> when there is no such node or attribute;
  \<^item> \<open>json_loads\<close>: the decoded JSON text, \<open>None\<close> when decoding raises.
\<close>

record externals =
  max_str_digits :: nat
  py_repr :: "json \<Rightarrow> string"
  soup_script_string :: "string \<Rightarrow> string option"
  soup_meta_content :: "string \<Rightarrow> string \<Rightarrow> string option"
  json_loads :: "string \<Rightarrow> json option"

definition py_str :: "externals \<Rightarrow> json \<Rightarrow> string" where
  "py_str ext v = (case v of JStr s \<Rightarrow> s | _ \<Rightarrow> py_repr ext v)"

section \<open>Character classes\<close>

definition is_digit :: "char \<Rightarrow> bool" where
  "is_digit c = (c \<in> set ''0123456789'')"

definition is_space :: "char \<Rightarrow> bool" where
  "is_space c = ((of_char c :: nat) \<in> {9, 10, 11, 12, 13, 28, 29, 30, 31, 32, 133, 160})"

definition is_alpha :: "char \<Rightarrow> bool" where
  "is_alpha c = (c \<in> set ''ABCDEFGHIJKLMNOPQRSTUVWXYZabcdefghijklmnopqrstuvwxyz'')"

definition py_strip :: "string \<Rightarrow> string" where
  "py_strip s = dropWhile is_space (rev (dropWhile is_space (rev s)))"

section \<open>Numeric coercion\<close>

text \<open>\<^verbatim>\<open>int(value)\<close> for a float truncates towards zero and raises on infinities and NaN.\<close>

definition int_of_float :: "pyfloat \<Rightarrow> py_error + int" where
  "int_of_float f =
     (case f of
        Finite m e \<Rightarrow>
          Inr (if 0 \<le> e then m * 2 ^ nat e else sgn m * (\<bar>m\<bar> div 2 ^ nat (- e)))
      | NegZero \<Rightarrow> Inr 0
      | PosInf \<Rightarrow> Inl OverflowError
      | NegInf \<Rightarrow> Inl OverflowError
      | NaN \<Rightarrow> Inl ValueError)"

definition digit_val :: "char \<Rightarrow> int" where
  "digit_val c = int (of_char c) - 48"

text \<open>\<^verbatim>\<open>int(cleaned)\<close> for a non-empty string of decimal digits, under the interpreter's
  limit \<open>lim\<close> on the number of digits (\<open>max_str_digits\<close>).\<close>

definition int_of_digits :: "nat \<Rightarrow> string \<Rightarrow> py_error + int" where
  "int_of_digits lim ds =
     (if lim \<noteq> 0 \<and> 640 < length ds \<and> lim < length ds
      then Inl ValueError
      else Inr (foldl (\<lambda>acc c. 10 * acc + digit_val c) 0 ds))"

text \<open>The body of \<^verbatim>\<open>_safe_int\<close> inside \<^verbatim>\<open>try\<close>, and the function with its \<^verbatim>\<open>except\<close>.\<close>

definition safe_int_try :: "nat \<Rightarrow> json \<Rightarrow> int \<Rightarrow> py_error + int" where
  "safe_int_try lim v dflt =
     (case v of
        JNull \<Rightarrow> Inr dflt
      | JBool b \<Rightarrow> Inr (if b then 1 else 0)
      | JInt i \<Rightarrow> Inr i
      | JFloat f \<Rightarrow> int_of_float f
      | JStr s \<Rightarrow>
          (let cleaned = filter is_digit s
           in if cleaned \<noteq> [] then int_of_digits lim cleaned else Inr dflt)
      | _ \<Rightarrow> Inr dflt)"

definition safe_int :: "nat \<Rightarrow> json \<Rightarrow> int \<Rightarrow> int" where
  "safe_int lim v dflt = (case safe_int_try lim v dflt of Inl e \<Rightarrow> dflt | Inr i \<Rightarrow> i)"

section \<open>Regular expressions\<close>

text \<open>
  Every pattern of the repository is a sequence of quantified character classes, so a pattern
  is a list of items \<open>Rep cls lo hi greedy\<close>: between \<open>lo\<close> and \<open>hi\<close> characters of the class
  (\<open>hi = None\<close>: unbounded), as many as possible first when greedy, as few as possible first
  when lazy. \<open>rx_match\<close> is Python's backtracking \<^verbatim>\<open>re.match\<close> (anchored at the start of
  the string); it returns the number of characters each item consumed. \<open>rx_search\<close> is
  \<^verbatim>\<open>re.search\<close>: the match at the leftmost start position that has one.
\<close>

datatype item = Rep "char \<Rightarrow> bool" nat "nat option" bool

definition one :: "(char \<Rightarrow> bool) \<Rightarrow> item" where
  "one cls = Rep cls 1 (Some 1) True"

definition lit :: "char \<Rightarrow> item" where
  "lit c = one (\<lambda>x. x = c)"

definition candidates :: "nat \<Rightarrow> nat option \<Rightarrow> bool \<Rightarrow> nat \<Rightarrow> nat list" where
  "candidates lo hi greedy run =
     (let top = (case hi of None \<Rightarrow> run | Some h \<Rightarrow> min h run);
          ks = [lo..<Suc top]
      in if greedy then rev ks else ks)"

fun first_some :: "('a \<Rightarrow> 'b option) \<Rightarrow> 'a list \<Rightarrow> 'b option" where
  "first_some f [] = None"
| "first_some f (x # xs) = (case f x of Some y \<Rightarrow> Some y | None \<Rightarrow> first_some f xs)"

fun rx_match :: "item list \<Rightarrow> string \<Rightarrow> nat list option" where
  "rx_match [] s = Some []"
| "rx_match (Rep cls lo hi greedy # rest) s =
     first_some (\<lambda>k. map_option ((#) k) (rx_match rest (drop k s)))
       (candidates lo hi greedy (length (takeWhile cls s)))"

definition rx_search :: "item list \<Rightarrow> string \<Rightarrow> (nat \<times> nat list) option" where
  "rx_search p s =
     first_some (\<lambda>i. map_option (Pair i) (rx_match p (drop i s))) [0..<Suc (length s)]"

text \<open>The text consumed by the items \<open>a, \<dots>, b - 1\<close> of a match that starts at \<open>s\<close>.\<close>

definition span :: "nat list \<Rightarrow> nat \<Rightarrow> nat \<Rightarrow> string \<Rightarrow> string" where
  "span ks a b s = take (sum_list (take (b - a) (drop a ks))) (drop (sum_list (take a ks)) s)"

text \<open>\<^verbatim>\<open>EMAIL_RE = [A-Za-z0-9._%+-]+@[A-Za-z0-9.-]+\.[A-Za-z]{2,}\<close>\<close>

definition EMAIL_RE :: "item list" where
  "EMAIL_RE =
     [Rep (\<lambda>c. is_alpha c \<or> is_digit c \<or> c \<in> set ''._%+-'') 1 None True,
      lit CHR ''@'',
      Rep (\<lambda>c. is_alpha c \<or> is_digit c \<or> c \<in> set ''.-'') 1 None True,
      lit CHR ''.'',
      Rep is_alpha 2 None True]"

text \<open>\<^verbatim>\<open>PHONE_RE = (\+?\d[\d\s\-]{7,}\d)\<close>\<close>

definition phone_char :: "char \<Rightarrow> bool" where
  "phone_char c = (is_digit c \<or> is_space c \<or> c = CHR ''-'')"

definition PHONE_RE :: "item list" where
  "PHONE_RE =
     [Rep (\<lambda>c. c = CHR ''+'') 0 (Some 1) True,
      one is_digit,
      Rep phone_char 7 None True,
      one is_digit]"

text \<open>\<^verbatim>\<open>/@([^/]+)/?\<close>, the pattern of \<^verbatim>\<open>_extract_username_from_url\<close>; group 1 is item 2.\<close>

definition USERNAME_RE :: "item list" where
  "USERNAME_RE =
     [lit CHR ''/'',
      lit CHR ''@'',
      Rep (\<lambda>c. c \<noteq> CHR ''/'') 1 None True,
      Rep (\<lambda>c. c = CHR ''/'') 0 (Some 1) True]"

text \<open>\<^verbatim>\<open>(.+?)\s+\(@(.+?)\)\<close>, the pattern of \<^verbatim>\<open>_parse_from_open_graph\<close>; group 1 is
  item 0 and group 2 is item 4. The dot matches every character but the newline.\<close>

definition TITLE_RE :: "item list" where
  "TITLE_RE =
     [Rep (\<lambda>c. c \<noteq> CHR 0x0A) 1 None False,
      Rep is_space 1 None True,
      lit CHR ''('',
      lit CHR ''@'',
      Rep (\<lambda>c. c \<noteq> CHR 0x0A) 1 None False,
      lit CHR '')'']"

section \<open>Field normalizer\<close>

text \<open>\<^verbatim>\<open>s.split(sep, 1)[0]\<close>: the text before the first separator, all of it when there is none.\<close>

definition before_first :: "char \<Rightarrow> string \<Rightarrow> string" where
  "before_first sep s = takeWhile (\<lambda>c. c \<noteq> sep) s"

text \<open>Lines 62 to 66 of \<^verbatim>\<open>_extract_username_from_url\<close>: group 1 of the leftmost match of
  the pattern, the empty string when there is no match.\<close>

definition username_match :: "string \<Rightarrow> string" where
  "username_match url2 =
     (case rx_search USERNAME_RE url2 of
        Some (i, ks) \<Rightarrow> span ks 2 3 (drop i url2)
      | None \<Rightarrow> [])"

definition extract_username_from_url :: "string \<Rightarrow> string" where
  "extract_username_from_url url0 =
     (let url1 = py_strip url0
      in if url1 = [] then []
         else username_match (before_first CHR ''#'' (before_first CHR ''?'' url1)))"

text \<open>\<^verbatim>\<open>_detect_contacts\<close>: a falsy bio gives no contacts; a regular expression searched in
  a value that is not a string raises \<^verbatim>\<open>TypeError\<close>.\<close>

definition detect_contacts :: "json \<Rightarrow> py_error + bool \<times> bool" where
  "detect_contacts bio0 =
     (if \<not> truthy bio0 then Inr (False, False)
      else case bio0 of
             JStr s \<Rightarrow> Inr (rx_search EMAIL_RE s \<noteq> None, rx_search PHONE_RE s \<noteq> None)
           | _ \<Rightarrow> Inl TypeError)"

text \<open>\<^verbatim>\<open>s.replace(old, new)\<close> for a non-empty \<open>old\<close>: every occurrence, left to right, without
  overlap.\<close>

fun py_replace :: "string \<Rightarrow> string \<Rightarrow> string \<Rightarrow> string" where
  "py_replace old new [] = []"
| "py_replace old new (c # cs) =
     (if old \<noteq> [] \<and> prefix old (c # cs)
      then new @ py_replace old new (drop (length old - 1) cs)
      else c # py_replace old new cs)"

section \<open>Embedded-state strategy\<close>

fun deep_get :: "json \<Rightarrow> json list \<Rightarrow> json \<Rightarrow> json" where
  "deep_get node [] dflt = node"
| "deep_get node (key # path) dflt =
     (case node of
        JObj d \<Rightarrow> (case py_lookup d key of None \<Rightarrow> dflt | Some v \<Rightarrow> deep_get v path dflt)
      | _ \<Rightarrow> dflt)"

text \<open>\<^verbatim>\<open>_parse_from_sigi_state\<close>: the decoded text of the script node, the empty dict when the
  node or its text is missing or decoding raises.\<close>

definition parse_from_sigi_state :: "externals \<Rightarrow> string \<Rightarrow> json" where
  "parse_from_sigi_state ext html =
     (case soup_script_string ext html of
        None \<Rightarrow> JObj []
      | Some s \<Rightarrow>
          if s = [] then JObj []
          else (case json_loads ext s of None \<Rightarrow> JObj [] | Some v \<Rightarrow> v))"

text \<open>\<^verbatim>\<open>_select_primary_user\<close>. The first entry of a non-empty \<^verbatim>\<open>UserModule.users\<close>
  dict is copied by \<^verbatim>\<open>dict(user)\<close>, which raises on most values that are not dicts.\<close>

definition select_primary_user :: "json \<Rightarrow> py_error + (json \<times> json) list" where
  "select_primary_user data =
     (case deep_get data [JStr ''UserModule'', JStr ''users''] (JObj []) of
        JObj ((first_key, user) # others) \<Rightarrow>
          (let stats = deep_get data [JStr ''UserModule'', JStr ''stats'', first_key] (JObj [])
           in case py_dict user of
                Inl e \<Rightarrow> Inl e
              | Inr merged \<Rightarrow>
                  (case stats of
                     JObj st \<Rightarrow> Inr (py_setdefault merged ''stats'' stats)
                   | _ \<Rightarrow> Inr merged))
      | _ \<Rightarrow>
          (case deep_get data [JStr ''UserPage'', JStr ''userInfo''] (JObj []) of
             JObj user_info \<Rightarrow> Inr user_info
           | _ \<Rightarrow> Inr []))"

text \<open>The dataclass \<^verbatim>\<open>TikTokUser\<close>. Python does not check the annotations, so a text field
  holds whatever value the document had under its key.\<close>

record TikTokUser =
  id' :: string
  url :: string
  username :: json
  nickname :: json
  bio :: json
  followers :: int
  following :: int
  likes :: int
  videos :: int
  verified :: bool
  avatar :: json
  region :: json
  language :: json
  hasEmail :: bool
  hasPhone :: bool
  coverImage :: json
  extra :: "(json \<times> json) list"

definition default_user :: TikTokUser where
  "default_user =
     \<lparr>id' = [], url = [], username = JStr [], nickname = JStr [], bio = JStr [],
      followers = 0, following = 0, likes = 0, videos = 0, verified = False,
      avatar = JStr [], region = JStr [], language = JStr [],
      hasEmail = False, hasPhone = False, coverImage = JStr [], extra = []\<rparr>"

text \<open>Lines 155 to 218 of \<^verbatim>\<open>_parse_user_from_structured_json\<close>: the fields read from
  \<^verbatim>\<open>user_info\<close> and \<^verbatim>\<open>stats\<close>. Calling \<^verbatim>\<open>.get\<close> on a value that is not a dict raises
  \<^verbatim>\<open>AttributeError\<close>.\<close>

definition build_user ::
  "externals \<Rightarrow> string \<Rightarrow> json \<Rightarrow> json \<Rightarrow> json \<Rightarrow> py_error + TikTokUser" where
  "build_user ext url0 sigi_state user_info stats =
     (case user_info of
        JObj ui \<Rightarrow>
          (case stats of
             JObj st \<Rightarrow>
               (let bio0 = py_get_default ui ''signature'' (JStr [])
                in case detect_contacts bio0 of
                     Inl e \<Rightarrow> Inl e
                   | Inr (has_email, has_phone) \<Rightarrow>
                       Inr \<lparr>id' = py_str ext
                               (py_or (py_get ui ''id'')
                                 (py_or (py_get ui ''uid'')
                                   (deep_get sigi_state [JStr ''UserPage'', JStr ''uniqueId'']
                                      (JStr [])))),
                            url = url0,
                            username = py_or (py_get ui ''uniqueId'')
                                         (JStr (extract_username_from_url url0)),
                            nickname = py_get_default ui ''nickname'' (JStr []),
                            bio = bio0,
                            followers = safe_int (max_str_digits ext)
                              (py_or (py_get st ''followerCount'')
                                (py_or (py_get st ''fans'')
                                  (py_or (py_get st ''followers'') (py_get st ''follower'')))) 0,
                            following = safe_int (max_str_digits ext)
                              (py_or (py_get st ''followingCount'')
                                (py_or (py_get st ''following'') (py_get st ''followings''))) 0,
                            likes = safe_int (max_str_digits ext)
                              (py_or (py_get st ''heartCount'')
                                (py_or (py_get st ''heart'')
                                  (py_or (py_get st ''totalFavorited'') (py_get st ''likes'')))) 0,
                            videos = safe_int (max_str_digits ext)
                              (py_or (py_get st ''videoCount'')
                                (py_or (py_get st ''videos'') (py_get st ''video''))) 0,
                            verified = truthy
                              (py_or (py_get ui ''verified'') (py_get ui ''badgeVerification'')),
                            avatar = py_or (py_get ui ''avatarLarger'')
                                       (py_or (py_get ui ''avatarThumb'')
                                         (py_or (py_get ui ''avatarMedium'') (JStr []))),
                            region = py_or (py_get_default ui ''region'' (JStr []))
                                       (py_get_default ui ''country'' (JStr [])),
                            language = py_get_default ui ''language'' (JStr []),
                            hasEmail = has_email,
                            hasPhone = has_phone,
                            coverImage = py_get_default ui ''coverImage'' (JStr []),
                            extra = []\<rparr>)
           | _ \<Rightarrow> Inl AttributeError)
      | _ \<Rightarrow> Inl AttributeError)"

text \<open>Lines 148 to 153 of \<^verbatim>\<open>_parse_user_from_structured_json\<close>: the two layouts of the
  primary user, either the user fields themselves (with a nested \<^verbatim>\<open>stats\<close>), or the two
  keys \<^verbatim>\<open>user\<close> and \<^verbatim>\<open>stats\<close>.\<close>

definition user_info_of :: "(json \<times> json) list \<Rightarrow> json" where
  "user_info_of user_data =
     (if py_in ''user'' user_data \<and> py_in ''stats'' user_data
      then py_or (py_get_default user_data ''user'' (JObj [])) (JObj [])
      else JObj user_data)"

definition stats_of :: "(json \<times> json) list \<Rightarrow> json" where
  "stats_of user_data = py_or (py_get_default user_data ''stats'' (JObj [])) (JObj [])"

text \<open>\<^verbatim>\<open>_parse_user_from_structured_json\<close>: \<open>Inr None\<close> is Python's \<^verbatim>\<open>None\<close>.\<close>

definition parse_user_from_structured_json ::
  "externals \<Rightarrow> string \<Rightarrow> string \<Rightarrow> py_error + TikTokUser option" where
  "parse_user_from_structured_json ext url0 html =
     (let sigi_state = parse_from_sigi_state ext html
      in if \<not> truthy sigi_state then Inr None
         else case select_primary_user sigi_state of
                Inl e \<Rightarrow> Inl e
              | Inr user_data \<Rightarrow>
                  if user_data = [] then Inr None
                  else
                    map_sum id Some
                      (build_user ext url0 sigi_state
                         (user_info_of user_data) (stats_of user_data)))"

section \<open>Metadata strategy\<close>

text \<open>The local function \<^verbatim>\<open>og\<close> of \<^verbatim>\<open>_parse_from_open_graph\<close>.\<close>

definition og :: "externals \<Rightarrow> string \<Rightarrow> string \<Rightarrow> string" where
  "og ext html name =
     (case soup_meta_content ext html (''og:'' @ name) of
        None \<Rightarrow> []
      | Some c \<Rightarrow> if c \<noteq> [] then c else [])"

definition parse_from_open_graph ::
  "externals \<Rightarrow> string \<Rightarrow> string \<Rightarrow> py_error + TikTokUser option" where
  "parse_from_open_graph ext url0 html =
     (let title = og ext html ''title'';
          description = og ext html ''description'';
          image = og ext html ''image'';
          username0 = extract_username_from_url url0;
          (username1, nickname1) =
            (if title \<noteq> [] then
               (case rx_match TITLE_RE title of
                  Some ks \<Rightarrow>
                    (if username0 = [] then py_strip (span ks 4 5 title) else username0,
                     py_strip (span ks 0 1 title))
                | None \<Rightarrow> (username0, py_strip (py_replace ''| TikTok'' [] title)))
             else (username0, []));
          bio0 = (if description \<noteq> [] then description else [])
      in case detect_contacts (JStr bio0) of
           Inl e \<Rightarrow> Inl e
         | Inr (has_email, has_phone) \<Rightarrow>
             Inr (Some (default_user
               \<lparr>id' := [], url := url0, username := JStr username1, nickname := JStr nickname1,
                bio := JStr bio0, avatar := JStr image,
                hasEmail := has_email, hasPhone := has_phone\<rparr>)))"

section \<open>Fetcher\<close>

text \<open>
  One attempt of \<^verbatim>\<open>fetch_html\<close> either returns the text of the response or raises (a
  transport error, or an error status raised by \<^verbatim>\<open>raise_for_status\<close>). The network is a
  function from the attempt number to what that attempt meets. The function returns the events
  it caused, in order, with its result.
\<close>

datatype outcome = Response string | Raises

datatype event = Get int | Sleep int

fun fetch_attempts :: "(int \<Rightarrow> outcome) \<Rightarrow> int list \<Rightarrow> event list \<times> string" where
  "fetch_attempts net [] = ([], [])"
| "fetch_attempts net (attempt # rest) =
     (case net attempt of
        Response text \<Rightarrow> ([Get attempt], text)
      | Raises \<Rightarrow>
          (let (events, html) = fetch_attempts net rest
           in (Get attempt # Sleep (min (2 * attempt) 10) # events, html)))"

definition fetch_html :: "(int \<Rightarrow> outcome) \<Rightarrow> int \<Rightarrow> event list \<times> string" where
  "fetch_html net retries = fetch_attempts net [1..retries]"

section \<open>Extraction pipeline\<close>

text \<open>
  \<^verbatim>\<open>parse_user_from_url\<close> after the fetch. The call of \<^verbatim>\<open>_parse_from_sigi_state\<close> whose
  result is tested with \<^verbatim>\<open>isinstance(user, TikTokUser)\<close> returns a decoded JSON value, never
  a \<^verbatim>\<open>TikTokUser\<close>, so that branch is never taken. An instance of the dataclass is truthy.
\<close>

definition parse_user_from_html :: "externals \<Rightarrow> string \<Rightarrow> string \<Rightarrow> py_error + TikTokUser" where
  "parse_user_from_html ext url0 html =
     (if html = [] then
        Inr (default_user\<lparr>id' := [], url := url0,
                          username := JStr (extract_username_from_url url0)\<rparr>)
      else
        (case parse_user_from_structured_json ext url0 html of
           Inl e \<Rightarrow> Inl e
         | Inr (Some structured_user) \<Rightarrow> Inr structured_user
         | Inr None \<Rightarrow>
             (case parse_from_open_graph ext url0 html of
                Inl e \<Rightarrow> Inl e
              | Inr (Some og_user) \<Rightarrow> Inr og_user
              | Inr None \<Rightarrow>
                  Inr (default_user\<lparr>id' := [], url := url0,
                                    username := JStr (extract_username_from_url url0)\<rparr>))))"

definition parse_user_from_url ::
  "externals \<Rightarrow> (int \<Rightarrow> outcome) \<Rightarrow> string \<Rightarrow> int \<Rightarrow> event list \<times> (py_error + TikTokUser)" where
  "parse_user_from_url ext net url0 retries =
     (let (events, html) = fetch_html net retries
      in (events, parse_user_from_html ext url0 html))"

section \<open>Record sink\<close>

text \<open>
  What \<^verbatim>\<open>_normalize_record\<close> can be given: a dict, a dataclass instance or an object with a
  \<^verbatim>\<open>__dict__\<close> (each with its fields), or a value of another type. A written file is the
  list of its rows, each a list of cells; the \<^verbatim>\<open>csv\<close> module formats them.
\<close>

datatype record_in =
    Dict "(string \<times> json) list"
  | Dataclass "(string \<times> json) list"
  | Object "(string \<times> json) list"
  | Unsupported

definition normalize_record :: "record_in \<Rightarrow> py_error + (string \<times> json) list" where
  "normalize_record r =
     (case r of
        Dict d \<Rightarrow> Inr d
      | Dataclass d \<Rightarrow> Inr d
      | Object d \<Rightarrow> Inr d
      | Unsupported \<Rightarrow> Inl TypeError)"

fun normalize_all :: "record_in list \<Rightarrow> py_error + (string \<times> json) list list" where
  "normalize_all [] = Inr []"
| "normalize_all (r # rs) =
     (case normalize_record r of
        Inl e \<Rightarrow> Inl e
      | Inr d \<Rightarrow> (case normalize_all rs of Inl e \<Rightarrow> Inl e | Inr ds \<Rightarrow> Inr (d # ds)))"

text \<open>The two nested loops that collect \<^verbatim>\<open>fieldnames\<close>.\<close>

definition add_keys :: "string list \<Rightarrow> string list \<Rightarrow> string list" where
  "add_keys fieldnames keys =
     fold (\<lambda>key fs. if key \<notin> set fs then fs @ [key] else fs) keys fieldnames"

definition collect_fieldnames :: "(string \<times> json) list list \<Rightarrow> string list" where
  "collect_fieldnames normalized = fold (\<lambda>rec fs. add_keys fs (map fst rec)) normalized []"

text \<open>\<^verbatim>\<open>DictWriter.writerow\<close>: a key outside the field names raises \<^verbatim>\<open>ValueError\<close>; a field
  the record lacks is written as the empty string.\<close>

definition row_of :: "string list \<Rightarrow> (string \<times> json) list \<Rightarrow> py_error + json list" where
  "row_of fieldnames rec =
     (if \<exists>k \<in> set (map fst rec). k \<notin> set fieldnames then Inl ValueError
      else Inr (map (\<lambda>k. case map_of rec k of None \<Rightarrow> JStr [] | Some v \<Rightarrow> v) fieldnames))"

fun rows_of :: "string list \<Rightarrow> (string \<times> json) list list \<Rightarrow> py_error + json list list" where
  "rows_of fieldnames [] = Inr []"
| "rows_of fieldnames (rec # recs) =
     (case row_of fieldnames rec of
        Inl e \<Rightarrow> Inl e
      | Inr row \<Rightarrow>
          (case rows_of fieldnames recs of Inl e \<Rightarrow> Inl e | Inr rows \<Rightarrow> Inr (row # rows)))"

definition export_to_csv :: "record_in list \<Rightarrow> py_error + json list list" where
  "export_to_csv records =
     (case normalize_all records of
        Inl e \<Rightarrow> Inl e
      | Inr normalized \<Rightarrow>
          if normalized = [] then Inr []
          else
            (let fieldnames = collect_fieldnames normalized
             in case rows_of fieldnames normalized of
                  Inl e \<Rightarrow> Inl e
                | Inr rows \<Rightarrow> Inr (map JStr fieldnames # rows)))"

section \<open>Notions of the specification\<close>

text \<open>The elements of a list in the order of their first occurrence.\<close>

fun first_seen :: "'a list \<Rightarrow> 'a list" where
  "first_seen [] = []"
| "first_seen (x # xs) = x # filter (\<lambda>y. y \<noteq> x) (first_seen xs)"

text \<open>The numbers whose integer part is negative: an int below zero, a finite float at most
  \<open>-1\<close>.\<close>

definition negative_integer_part :: "json \<Rightarrow> bool" where
  "negative_integer_part v =
     (case v of
        JInt i \<Rightarrow> i < 0
      | JFloat (Finite m e) \<Rightarrow> m < 0 \<and> (0 \<le> e \<or> 2 ^ nat (- e) \<le> - m)
      | _ \<Rightarrow> False)"

text \<open>The integer \<open>n\<close> is the number \<open>m * 2 ^ e\<close> truncated towards zero: it has the sign of the
  number, and its magnitude is the largest integer not above the magnitude of the number.\<close>

definition truncation_of :: "int \<Rightarrow> int \<Rightarrow> int \<Rightarrow> bool" where
  "truncation_of m e n =
     (if 0 \<le> e then n = m * 2 ^ nat e
      else 0 \<le> n * m \<and> \<bar>n\<bar> * 2 ^ nat (- e) \<le> \<bar>m\<bar> \<and> \<bar>m\<bar> < (\<bar>n\<bar> + 1) * 2 ^ nat (- e))"

text \<open>The number that a string of decimal digits denotes, digit by digit with its place
  value.\<close>

definition decimal_value :: "string \<Rightarrow> int" where
  "decimal_value ds =
     sum_list (map (\<lambda>i. digit_val (ds ! i) * 10 ^ (length ds - Suc i)) [0..<length ds])"

text \<open>The pieces of a text between separators, as \<^verbatim>\<open>s.split(sep)\<close> gives them.\<close>

fun split_on :: "char \<Rightarrow> string \<Rightarrow> string list" where
  "split_on sep [] = [[]]"
| "split_on sep (c # cs) =
     (if c = sep then [] # split_on sep cs
      else (case split_on sep cs of [] \<Rightarrow> [[c]] | p # ps \<Rightarrow> (c # p) # ps))"

text \<open>The handles of a text: for each piece that follows a \<open>/\<close> and begins with the handle
  marker, the rest of the piece. The first handle is the first one that is not empty.\<close>

definition handles :: "string \<Rightarrow> string list" where
  "handles u = map tl (filter (prefix ''@'') (tl (split_on CHR ''/'' u)))"

definition first_handle :: "string \<Rightarrow> string" where
  "first_handle u = (case filter (\<lambda>h. h \<noteq> []) (handles u) of [] \<Rightarrow> [] | h # hs \<Rightarrow> h)"

text \<open>The path of a URL, in the generic syntax \<^verbatim>\<open>scheme://authority/path?query#fragment\<close>:
  what follows the authority, without query and fragment. Its segments are the pieces that
  follow each \<open>/\<close>.\<close>

fun after_scheme :: "string \<Rightarrow> string option" where
  "after_scheme [] = None"
| "after_scheme (c # cs) =
     (if prefix ''://'' (c # cs) then Some (drop 2 cs) else after_scheme cs)"

definition url_path :: "string \<Rightarrow> string" where
  "url_path u =
     (let v = before_first CHR ''#'' (before_first CHR ''?'' u)
      in case after_scheme v of
           None \<Rightarrow> v
         | Some rest \<Rightarrow> dropWhile (\<lambda>c. c \<noteq> CHR ''/'') rest)"

definition path_segments :: "string \<Rightarrow> string list" where
  "path_segments u = tl (split_on CHR ''/'' (url_path u))"

section \<open>Sample documents\<close>

text \<open>Libraries under which every document has a script node whose text decodes to \<open>blob\<close>,
  and the metadata title \<open>title\<close> when it is not empty.\<close>

definition sample_externals :: "json option \<Rightarrow> string \<Rightarrow> externals" where
  "sample_externals blob title =
     \<lparr>max_str_digits = 4300,
      py_repr = (\<lambda>v. ''<value>''),
      soup_script_string = (\<lambda>html. map_option (\<lambda>b. ''<json>'') blob),
      soup_meta_content = (\<lambda>html name. if name = ''og:title'' \<and> title \<noteq> [] then Some title else None),
      json_loads = (\<lambda>text. blob)\<rparr>"

section \<open>Properties of numeric coercion\<close>

lemma digit_val_nonneg: "is_digit c \<Longrightarrow> 0 \<le> digit_val c"
  by (auto simp: is_digit_def digit_val_def)

lemma foldl_digits_nonneg:
  "\<forall>c \<in> set ds. is_digit c \<Longrightarrow> 0 \<le> acc \<Longrightarrow> 0 \<le> foldl (\<lambda>acc c. 10 * acc + digit_val c) acc ds"
proof (induction ds arbitrary: acc)
  case Nil
  then show ?case by simp
next
  case (Cons c ds)
  have "0 \<le> 10 * acc + digit_val c"
    using Cons.prems digit_val_nonneg [of c] by simp
  with Cons show ?case by simp
qed

lemma int_of_digits_nonneg:
  "\<forall>c \<in> set ds. is_digit c \<Longrightarrow> int_of_digits lim ds = Inr n \<Longrightarrow> 0 \<le> n"
  using foldl_digits_nonneg [of ds 0] by (auto simp: int_of_digits_def split: if_splits)

lemma int_of_float_negative:
  "int_of_float f = Inr n \<Longrightarrow> n < 0 \<longleftrightarrow> negative_integer_part (JFloat f)"
proof (cases f)
  case (Finite m e)
  assume r: "int_of_float f = Inr n"
  show ?thesis
  proof (cases "0 \<le> e")
    case True
    have "(m * 2 ^ nat e < 0) = (m < 0)"
      by (simp add: mult_less_0_iff)
    with True r Finite show ?thesis
      by (auto simp: int_of_float_def negative_integer_part_def)
  next
    case False
    let ?p = "(2::int) ^ nat (- e)"
    have p: "0 < ?p" by simp
    have "(sgn m * (\<bar>m\<bar> div ?p) < 0) = (m < 0 \<and> ?p \<le> - m)"
    proof (cases "m < 0")
      case True
      then have "(\<bar>m\<bar> div ?p > 0) = (?p \<le> - m)"
        using p by (simp add: pos_imp_zdiv_pos_iff)
      with True show ?thesis by (simp add: sgn_if)
    next
      case False
      then have "0 \<le> \<bar>m\<bar> div ?p" using p by (simp add: pos_imp_zdiv_nonneg_iff)
      with False show ?thesis by (simp add: sgn_if mult_less_0_iff)
    qed
    with False r Finite show ?thesis
      by (auto simp: int_of_float_def negative_integer_part_def)
  qed
qed (auto simp: int_of_float_def negative_integer_part_def)

lemma safe_int_negative: "(safe_int lim v 0 < 0) = negative_integer_part v"
proof (cases v)
  case (JFloat f)
  show ?thesis
  proof (cases "int_of_float f")
    case (Inl e)
    then have "\<not> negative_integer_part (JFloat f)"
      by (cases f) (auto simp: int_of_float_def negative_integer_part_def)
    with Inl JFloat show ?thesis by (simp add: safe_int_def safe_int_try_def)
  next
    case (Inr n)
    with JFloat int_of_float_negative [OF Inr] show ?thesis
      by (simp add: safe_int_def safe_int_try_def)
  qed
next
  case (JStr s)
  have "0 \<le> safe_int lim (JStr s) 0"
    using int_of_digits_nonneg [of "filter is_digit s" lim]
    by (auto simp: safe_int_def safe_int_try_def Let_def split: sum.splits)
  with JStr show ?thesis by (simp add: negative_integer_part_def)
qed (auto simp: safe_int_def safe_int_try_def negative_integer_part_def)

lemma int_of_float_truncates:
  "int_of_float (Finite m e) = Inr n \<Longrightarrow> truncation_of m e n"
proof (cases "0 \<le> e")
  case True
  assume "int_of_float (Finite m e) = Inr n"
  with True show ?thesis by (simp add: int_of_float_def truncation_of_def)
next
  case False
  assume r: "int_of_float (Finite m e) = Inr n"
  let ?p = "(2::int) ^ nat (- e)"
  have p: "0 < ?p" by simp
  from r False have n: "n = sgn m * (\<bar>m\<bar> div ?p)"
    by (simp add: int_of_float_def)
  have q: "0 \<le> \<bar>m\<bar> div ?p" using p by (simp add: pos_imp_zdiv_nonneg_iff)
  have abs_n: "\<bar>n\<bar> = \<bar>m\<bar> div ?p"
  proof (cases "m = 0")
    case True
    then show ?thesis by (simp add: n)
  next
    case False
    then show ?thesis using q by (simp add: n abs_mult abs_sgn_eq)
  qed
  have "n * m = \<bar>m\<bar> * (\<bar>m\<bar> div ?p)"
    by (simp add: n sgn_if)
  then have s: "0 \<le> n * m" using q by simp
  have "0 \<le> \<bar>m\<bar> mod ?p" using p by simp
  moreover have "\<bar>m\<bar> = ?p * (\<bar>m\<bar> div ?p) + \<bar>m\<bar> mod ?p" by simp
  ultimately have "?p * (\<bar>m\<bar> div ?p) \<le> \<bar>m\<bar>" by linarith
  then have lo: "\<bar>n\<bar> * ?p \<le> \<bar>m\<bar>"
    unfolding abs_n by (simp add: algebra_simps)
  have "\<bar>m\<bar> mod ?p < ?p" using p by simp
  moreover have "\<bar>m\<bar> = ?p * (\<bar>m\<bar> div ?p) + \<bar>m\<bar> mod ?p" by simp
  ultimately have "\<bar>m\<bar> < ?p * (\<bar>m\<bar> div ?p) + ?p" by linarith
  then have hi: "\<bar>m\<bar> < (\<bar>n\<bar> + 1) * ?p"
    unfolding abs_n by (simp add: algebra_simps)
  from False s lo hi show ?thesis by (simp add: truncation_of_def)
qed

lemma foldl_digits_place_value:
  "foldl (\<lambda>acc c. 10 * acc + digit_val c) acc ds =
     acc * 10 ^ length ds + decimal_value ds"
proof (induction ds arbitrary: acc rule: rev_induct)
  case Nil
  show ?case by (simp add: decimal_value_def)
next
  case (snoc c ds)
  have "decimal_value (ds @ [c]) = 10 * decimal_value ds + digit_val c"
  proof -
    have m: "map (\<lambda>i. digit_val ((ds @ [c]) ! i) * 10 ^ (length ds - i)) [0..<length ds] =
          map (\<lambda>i. 10 * (digit_val (ds ! i) * 10 ^ (length ds - Suc i))) [0..<length ds]"
    proof (rule map_cong)
      fix i assume i: "i \<in> set [0..<length ds]"
      then have "length ds - i = Suc (length ds - Suc i)" by auto
      then show "digit_val ((ds @ [c]) ! i) * 10 ^ (length ds - i) =
                 10 * (digit_val (ds ! i) * 10 ^ (length ds - Suc i))"
        using i by (simp add: nth_append)
    qed simp
    show ?thesis
      by (simp add: decimal_value_def m sum_list_const_mult)
  qed
  with snoc show ?case by (simp add: algebra_simps)
qed

lemma safe_int_digits:
  "safe_int lim (JStr s) 0 =
     (if lim \<noteq> 0 \<and> 640 < length (filter is_digit s) \<and> lim < length (filter is_digit s)
      then 0 else decimal_value (filter is_digit s))"
proof (cases "filter is_digit s = []")
  case True
  then show ?thesis by (simp add: safe_int_def safe_int_try_def decimal_value_def)
next
  case False
  then show ?thesis
    by (simp add: safe_int_def safe_int_try_def int_of_digits_def foldl_digits_place_value
        Let_def)
qed

lemma safe_int_finite_float:
  "truncation_of m e (safe_int lim (JFloat (Finite m e)) 0)"
proof -
  obtain n where n: "int_of_float (Finite m e) = Inr n"
    by (simp add: int_of_float_def)
  from int_of_float_truncates [OF n] n show ?thesis
    by (simp add: safe_int_def safe_int_try_def)
qed

text \<open>
  Claim C2, as stated: for every input, numeric coercion never raises and its result is never
  negative. The second part fails: an int is returned as it is, so \<^verbatim>\<open>_safe_int(-5)\<close> is
  \<open>-5\<close>.
\<close>

theorem safe_int_negative_counterexample: "safe_int 4300 (JInt (- 5)) 0 = - 5"
  by (simp add: safe_int_def safe_int_try_def)

text \<open>
  Claim C2, amended. Numeric coercion never raises: whatever raises inside it yields the
  default. With the default \<open>0\<close> its result is, for every input:
  \<^item> \<open>0\<close> for None, for a list and for a dict (the other types);
  \<^item> \<open>0\<close> or \<open>1\<close> for a bool, and the int itself for an int, negative when the int is;
  \<^item> for a finite float the float truncated towards zero, so negative when the float is at
    most \<open>-1\<close>; \<open>0\<close> for an infinite or NaN float, whose cast raises;
  \<^item> for a string the number that its digits denote, all other characters dropped, which is
    never negative; \<open>0\<close> when the string has no digit, and \<open>0\<close> when it has more digits than
    the interpreter's limit allows, where the conversion raises.
  So the result is negative exactly when the input is an int below zero or a finite float at
  most \<open>-1\<close>, and for every other input it is not negative.
\<close>

theorem safe_int_absorbs_errors_and_sign:
  "safe_int lim JNull 0 = 0 \<and>
   safe_int lim (JArr xs) 0 = 0 \<and>
   safe_int lim (JObj d) 0 = 0 \<and>
   safe_int lim (JBool b) 0 = (if b then 1 else 0) \<and>
   safe_int lim (JInt i) 0 = i \<and>
   truncation_of m x (safe_int lim (JFloat (Finite m x)) 0) \<and>
   safe_int lim (JFloat NegZero) 0 = 0 \<and>
   safe_int lim (JFloat PosInf) 0 = 0 \<and>
   safe_int lim (JFloat NegInf) 0 = 0 \<and>
   safe_int lim (JFloat NaN) 0 = 0 \<and>
   safe_int lim (JStr s) 0 =
     (if lim \<noteq> 0 \<and> 640 < length (filter is_digit s) \<and> lim < length (filter is_digit s)
      then 0 else decimal_value (filter is_digit s)) \<and>
   0 \<le> safe_int lim (JStr s) 0 \<and>
   (filter is_digit s = [] \<longrightarrow> safe_int lim (JStr s) 0 = 0) \<and>
   (safe_int_try lim v 0 = Inl e \<longrightarrow> safe_int lim v 0 = 0) \<and>
   (safe_int lim v 0 < 0) = negative_integer_part v"
proof -
  have simple: "safe_int lim JNull 0 = 0" "safe_int lim (JArr xs) 0 = 0"
    "safe_int lim (JObj d) 0 = 0" "safe_int lim (JBool b) 0 = (if b then 1 else 0)"
    "safe_int lim (JInt i) 0 = i"
    by (simp_all add: safe_int_def safe_int_try_def)
  have special: "safe_int lim (JFloat NegZero) 0 = 0" "safe_int lim (JFloat PosInf) 0 = 0"
    "safe_int lim (JFloat NegInf) 0 = 0" "safe_int lim (JFloat NaN) 0 = 0"
    by (simp_all add: safe_int_def safe_int_try_def int_of_float_def)
  have nonneg: "0 \<le> safe_int lim (JStr s) 0"
    using safe_int_negative [of lim "JStr s"] by (simp add: negative_integer_part_def)
  have nodigit: "filter is_digit s = [] \<longrightarrow> safe_int lim (JStr s) 0 = 0"
    by (simp add: safe_int_def safe_int_try_def)
  have absorbed: "safe_int_try lim v 0 = Inl e \<longrightarrow> safe_int lim v 0 = 0"
    by (simp add: safe_int_def)
  from simple special nonneg nodigit absorbed safe_int_finite_float [of m x lim]
    safe_int_digits [of lim s] safe_int_negative [of lim v]
  show ?thesis by blast
qed

theorem safe_int_absorbs_errors_and_sign_witness:
  "safe_int_try 4300 (JFloat NaN) 0 = Inl ValueError \<and> safe_int 4300 (JFloat NaN) 0 = 0 \<and>
   filter is_digit ''n/a'' = [] \<and> safe_int 4300 (JStr ''n/a'') 0 = 0 \<and>
   truncation_of (- 5) (- 1) (- 2) \<and> safe_int 4300 (JFloat (Finite (- 5) (- 1))) 0 = - 2"
proof -
  note t = safe_int_absorbs_errors_and_sign
    [of 4300 "[]" "[]" True 0 "- 5" "- 1" "''n/a''" "JFloat NaN" ValueError]
  have h1: "safe_int_try 4300 (JFloat NaN) 0 = Inl ValueError"
    by (simp add: safe_int_try_def int_of_float_def)
  have h2: "filter is_digit ''n/a'' = []"
    by (simp add: is_digit_def)
  from t h1 have c1: "safe_int 4300 (JFloat NaN) 0 = 0" by blast
  from t h2 have c2: "safe_int 4300 (JStr ''n/a'') 0 = 0" by blast
  have c3: "safe_int 4300 (JFloat (Finite (- 5) (- 1))) 0 = - 2"
    by (simp add: safe_int_def safe_int_try_def int_of_float_def)
  from t have "truncation_of (- 5) (- 1) (safe_int 4300 (JFloat (Finite (- 5) (- 1))) 0)"
    by blast
  then have c4: "truncation_of (- 5) (- 1) (- 2)" unfolding c3 .
  from h1 h2 c1 c2 c3 c4 show ?thesis by blast
qed

section \<open>Properties of the fetcher\<close>

lemma fetch_attempts_events:
  "fst (fetch_attempts net as) =
     concat (map (\<lambda>k. [Get k, Sleep (min (2 * k) 10)]) (takeWhile (\<lambda>k. net k = Raises) as)) @
     (case dropWhile (\<lambda>k. net k = Raises) as of [] \<Rightarrow> [] | k # ks \<Rightarrow> [Get k])"
proof (induction as)
  case Nil
  show ?case by simp
next
  case (Cons a as)
  show ?case
  proof (cases "net a")
    case (Response body)
    then show ?thesis by simp
  next
    case Raises
    with Cons show ?thesis by (simp add: case_prod_unfold)
  qed
qed

text \<open>
  Claim C4, as stated: the Fetcher waits \<open>min (2 * k) 10\<close> after a failed attempt \<open>k\<close> and only
  between failed attempts, so never after the final attempt. The last part fails: with one
  attempt allowed, which fails, the call still sleeps two time units before it returns the
  empty content.
\<close>

theorem fetch_html_waits_after_final_attempt_counterexample:
  "fetch_html (\<lambda>k. Raises) 1 = ([Get 1, Sleep 2], [])"
  by (simp add: fetch_html_def upto_rec1)

text \<open>
  Claim C4, amended. The events of a call are: for each attempt \<open>k\<close> that fails before the first
  success, the request followed by a wait of exactly \<open>min (2 * k) 10\<close> time units, the final
  attempt included; then the request of the first successful attempt, if there is one. So there
  is no wait before the first attempt and none after a successful one, and the wait depends on
  the attempt number alone: linear, capped at 10, neither exponential nor jittered.
\<close>

theorem fetch_html_waits_after_every_failure:
  "fst (fetch_html net retries) =
     concat (map (\<lambda>k. [Get k, Sleep (min (2 * k) 10)])
       (takeWhile (\<lambda>k. net k = Raises) [1..retries])) @
     (case dropWhile (\<lambda>k. net k = Raises) [1..retries] of [] \<Rightarrow> [] | k # ks \<Rightarrow> [Get k])"
  unfolding fetch_html_def by (rule fetch_attempts_events)

theorem fetch_html_waits_after_every_failure_witness:
  "fst (fetch_html (\<lambda>k. if k < 7 then Raises else Response ''<html>'') 8) =
     [Get 1, Sleep 2, Get 2, Sleep 4, Get 3, Sleep 6, Get 4, Sleep 8, Get 5, Sleep 10,
      Get 6, Sleep 10, Get 7]"
  using fetch_html_waits_after_every_failure [of "\<lambda>k. if k < 7 then Raises else Response ''<html>''" 8]
  by (simp add: upto_rec1)

section \<open>Properties of the minimal strategy\<close>

lemma jane_url: "extract_username_from_url ''https://example.com/@jane'' = ''jane''"
  by (simp add: extract_username_from_url_def username_match_def py_strip_def is_space_def
      before_first_def rx_search_def USERNAME_RE_def lit_def one_def candidates_def span_def)

text \<open>
  Claim C5. When the fetch of \<^verbatim>\<open>https://example.com/@jane\<close> gives empty content, the
  pipeline still returns a record: its \<open>url\<close> is the input URL, its \<open>username\<close> is \<open>jane\<close>,
  taken from the URL, and every other field has its default (empty strings, zeros, false,
  empty \<open>extra\<close>).
\<close>

theorem empty_content_gives_minimal_record:
  "snd (fetch_html net retries) = [] \<Longrightarrow>
   snd (parse_user_from_url ext net ''https://example.com/@jane'' retries) =
     Inr \<lparr>id' = [], url = ''https://example.com/@jane'', username = JStr ''jane'',
          nickname = JStr [], bio = JStr [], followers = 0, following = 0, likes = 0,
          videos = 0, verified = False, avatar = JStr [], region = JStr [],
          language = JStr [], hasEmail = False, hasPhone = False, coverImage = JStr [],
          extra = []\<rparr>"
  by (simp add: parse_user_from_url_def parse_user_from_html_def case_prod_unfold
      default_user_def jane_url)

theorem empty_content_gives_minimal_record_witness:
  "snd (fetch_html (\<lambda>k. Raises) 3) = [] \<and>
   snd (parse_user_from_url (sample_externals None []) (\<lambda>k. Raises)
          ''https://example.com/@jane'' 3) =
     Inr \<lparr>id' = [], url = ''https://example.com/@jane'', username = JStr ''jane'',
          nickname = JStr [], bio = JStr [], followers = 0, following = 0, likes = 0,
          videos = 0, verified = False, avatar = JStr [], region = JStr [],
          language = JStr [], hasEmail = False, hasPhone = False, coverImage = JStr [],
          extra = []\<rparr>"
proof -
  have h: "snd (fetch_html (\<lambda>k. Raises) 3) = []"
    by (simp add: fetch_html_def upto_rec1 case_prod_unfold)
  from h empty_content_gives_minimal_record [OF h, of "sample_externals None []"]
  show ?thesis by (rule conjI)
qed

section \<open>Properties of the record sink\<close>

lemma set_first_seen: "set (first_seen xs) = set xs"
  by (induction xs) auto

lemma distinct_first_seen: "distinct (first_seen xs)"
  by (induction xs) (auto simp: set_first_seen)

lemma first_seen_append:
  "first_seen (xs @ ys) = first_seen xs @ filter (\<lambda>y. y \<notin> set xs) (first_seen ys)"
proof (induction xs)
  case Nil
  show ?case by simp
next
  case (Cons x xs)
  have "filter (\<lambda>y. y \<noteq> x) (filter (\<lambda>y. y \<notin> set xs) (first_seen ys)) =
        filter (\<lambda>y. y \<notin> set (x # xs)) (first_seen ys)"
    by (auto intro: filter_cong)
  with Cons show ?case by simp
qed

lemma add_keys_first_seen:
  "add_keys fs ks = fs @ filter (\<lambda>y. y \<notin> set fs) (first_seen ks)"
proof (induction ks arbitrary: fs)
  case Nil
  show ?case by (simp add: add_keys_def)
next
  case (Cons k ks)
  have step: "add_keys fs (k # ks) = add_keys (if k \<notin> set fs then fs @ [k] else fs) ks"
    by (simp add: add_keys_def)
  show ?case
  proof (cases "k \<in> set fs")
    case True
    have "filter (\<lambda>y. y \<notin> set fs) (filter (\<lambda>y. y \<noteq> k) (first_seen ks)) =
          filter (\<lambda>y. y \<notin> set fs) (first_seen ks)"
      using True by (auto intro: filter_cong)
    with True step Cons [of fs] show ?thesis by simp
  next
    case False
    have "filter (\<lambda>y. y \<notin> set (fs @ [k])) (first_seen ks) =
          filter (\<lambda>y. y \<notin> set fs) (filter (\<lambda>y. y \<noteq> k) (first_seen ks))"
      by (auto intro: filter_cong)
    with False step Cons [of "fs @ [k]"] show ?thesis by simp
  qed
qed

lemma fold_add_keys:
  "fold (\<lambda>rec fs. add_keys fs (map fst rec)) recs acc =
     acc @ filter (\<lambda>y. y \<notin> set acc) (first_seen (concat (map (map fst) recs)))"
proof (induction recs arbitrary: acc)
  case Nil
  show ?case by simp
next
  case (Cons r recs)
  let ?ks = "map fst r"
  let ?acc = "add_keys acc ?ks"
  have s: "set ?acc = set acc \<union> set ?ks"
    by (auto simp: add_keys_first_seen set_first_seen)
  have "filter (\<lambda>y. y \<notin> set ?acc) (first_seen (concat (map (map fst) recs))) =
        filter (\<lambda>y. y \<notin> set acc) (filter (\<lambda>y. y \<notin> set ?ks) (first_seen (concat (map (map fst) recs))))"
    unfolding s by (auto intro: filter_cong)
  with Cons [of ?acc] show ?case
    by (simp add: first_seen_append add_keys_first_seen)
qed

lemma collect_fieldnames_first_seen:
  "collect_fieldnames recs = first_seen (concat (map (map fst) recs))"
  by (simp add: collect_fieldnames_def fold_add_keys)

lemma rows_of_total:
  "\<forall>rec \<in> set recs. set (map fst rec) \<subseteq> set fs \<Longrightarrow>
   \<exists>rows. rows_of fs recs = Inr rows \<and> length rows = length recs"
proof (induction recs)
  case Nil
  show ?case by simp
next
  case (Cons r recs)
  then obtain rows where "rows_of fs recs = Inr rows" "length rows = length recs" by auto
  moreover from Cons.prems have "\<exists>row. row_of fs r = Inr row"
    by (auto simp: row_of_def)
  ultimately show ?case by auto
qed

lemma normalize_all_dicts: "normalize_all (map Dict rs) = Inr rs"
  by (induction rs) (simp_all add: normalize_record_def)

text \<open>
  Claim C9. For the empty list of records the tabular export writes a file with no row at all,
  not even a header. For a non-empty list of flattened records (dicts) it writes a header row
  and one row per record; the header is the list of all keys of all records in the order of
  their first occurrence, which holds each key of each record exactly once.
\<close>

theorem csv_header_is_first_seen_union:
  "export_to_csv [] = Inr [] \<and>
   (rs \<noteq> [] \<longrightarrow>
      (\<exists>rows. export_to_csv (map Dict rs) =
                 Inr (map JStr (first_seen (concat (map (map fst) rs))) # rows) \<and>
              length rows = length rs)) \<and>
   set (first_seen (concat (map (map fst) rs))) = (\<Union>r \<in> set rs. fst ` set r) \<and>
   distinct (first_seen (concat (map (map fst) rs)))"
proof -
  have "\<forall>rec \<in> set rs. set (map fst rec) \<subseteq> set (collect_fieldnames rs)"
    by (auto simp: collect_fieldnames_first_seen set_first_seen)
  from rows_of_total [OF this]
  obtain rows where "rows_of (collect_fieldnames rs) rs = Inr rows" "length rows = length rs"
    by blast
  then have "rs \<noteq> [] \<longrightarrow>
      (\<exists>rows. export_to_csv (map Dict rs) =
                 Inr (map JStr (first_seen (concat (map (map fst) rs))) # rows) \<and>
              length rows = length rs)"
    by (simp add: export_to_csv_def normalize_all_dicts collect_fieldnames_first_seen)
  moreover have "export_to_csv [] = Inr []"
    by (simp add: export_to_csv_def)
  ultimately show ?thesis
    by (simp add: set_first_seen distinct_first_seen)
qed

theorem csv_header_is_first_seen_union_witness:
  "[[(''url'', JStr ''u1''), (''id'', JStr ''7'')], [(''id'', JStr ''8''), (''note'', JNull), (''url'', JStr ''u2'')]] \<noteq> [] \<and>
   export_to_csv [Dict [(''url'', JStr ''u1''), (''id'', JStr ''7'')],
                  Dict [(''id'', JStr ''8''), (''note'', JNull), (''url'', JStr ''u2'')]] =
     Inr [[JStr ''url'', JStr ''id'', JStr ''note''],
          [JStr ''u1'', JStr ''7'', JStr []],
          [JStr ''u2'', JStr ''8'', JNull]]"
proof -
  let ?rs = "[[(''url'', JStr ''u1''), (''id'', JStr ''7'')], [(''id'', JStr ''8''), (''note'', JNull), (''url'', JStr ''u2'')]]"
  have h: "?rs \<noteq> []" by simp
  from csv_header_is_first_seen_union [of ?rs] h
  obtain rows where r: "export_to_csv (map Dict ?rs) =
      Inr (map JStr (first_seen (concat (map (map fst) ?rs))) # rows)"
    by blast
  have "export_to_csv (map Dict ?rs) = Inr [[JStr ''url'', JStr ''id'', JStr ''note''],
          [JStr ''u1'', JStr ''7'', JStr []],
          [JStr ''u2'', JStr ''8'', JNull]]"
    by (simp add: export_to_csv_def normalize_record_def collect_fieldnames_def add_keys_def
        row_of_def)
  with h show ?thesis by simp
qed

section \<open>Properties of the embedded-state strategy\<close>

lemma py_key_eq_JStr [simp]: "py_key_eq k (JStr s) = (k = JStr s)"
  by (simp add: py_key_eq_def num_repr_def split: option.splits)

lemma py_lookup_append:
  "py_lookup (d @ d') k = (case py_lookup d k of Some v \<Rightarrow> Some v | None \<Rightarrow> py_lookup d' k)"
  by (induction d) auto

lemma py_setdefault_present: "py_in k d \<Longrightarrow> py_setdefault d k v = d"
  by (simp add: py_setdefault_def)

lemma py_setdefault_absent: "\<not> py_in k d \<Longrightarrow> py_setdefault d k v = d @ [(JStr k, v)]"
  by (simp add: py_setdefault_def)


lemma py_in_append: "py_in k (d @ d') = (py_in k d \<or> py_in k d')"
  by (simp add: py_in_def py_lookup_append split: option.splits)

lemma py_get_append: "py_in k d \<Longrightarrow> py_get (d @ d') k = py_get d k"
  by (auto simp: py_in_def py_get_def py_lookup_append)

lemma py_get_default_append:
  "py_get_default (d @ d') k x =
     (if py_in k d then py_get_default d k x else py_get_default d' k x)"
  by (auto simp: py_in_def py_get_default_def py_lookup_append split: option.splits)

lemma py_get_truthy_in: "truthy (py_get d k) \<Longrightarrow> py_in k d"
  by (auto simp: py_in_def py_get_def split: option.splits)

lemma deep_get_truthy: "deep_get blob (key # path) (JObj []) = JObj (x # xs) \<Longrightarrow> truthy blob"
  by (cases blob) (auto split: option.splits)

lemma select_primary_user_first_entry:
  assumes "deep_get data [JStr ''UserModule'', JStr ''users''] (JObj []) = JObj ((k, JObj u) # others)"
  shows "select_primary_user data =
           (case deep_get data [JStr ''UserModule'', JStr ''stats'', k] (JObj []) of
              JObj st \<Rightarrow> Inr (py_setdefault u ''stats'' (JObj st))
            | _ \<Rightarrow> Inr u)"
  using assms by (simp add: select_primary_user_def py_dict_def split: json.splits)

lemma py_in_single: "py_in k [(JStr k', v)] = (k' = k)"
  by (simp add: py_in_def)

lemma detect_contacts_text:
  "detect_contacts (JStr s) =
     Inr (if s = [] then (False, False)
          else (rx_search EMAIL_RE s \<noteq> None, rx_search PHONE_RE s \<noteq> None))"
  by (simp add: detect_contacts_def)

lemma build_user_fields:
  assumes "build_user ext url0 sg (JObj ui) stats = Inr r"
  shows "username r = py_or (py_get ui ''uniqueId'') (JStr (extract_username_from_url url0))"
    and "avatar r = py_or (py_get ui ''avatarLarger'')
                      (py_or (py_get ui ''avatarThumb'') (py_or (py_get ui ''avatarMedium'') (JStr [])))"
    and "\<exists>st. stats = JObj st \<and>
           followers r = safe_int (max_str_digits ext)
             (py_or (py_get st ''followerCount'')
               (py_or (py_get st ''fans'')
                 (py_or (py_get st ''followers'') (py_get st ''follower'')))) 0"
  using assms
  by (auto simp: build_user_def Let_def split: json.splits sum.splits prod.splits)

lemma build_user_succeeds:
  assumes "detect_contacts (py_get_default ui ''signature'' (JStr [])) = Inr c"
  shows "\<exists>r. build_user ext url0 sg (JObj ui) (JObj st) = Inr r"
  using assms by (cases c) (simp add: build_user_def Let_def)

lemma detect_contacts_succeeds:
  assumes "\<not> truthy v \<or> (\<exists>s. v = JStr s)"
  shows "\<exists>c. detect_contacts v = Inr c"
  using assms by (auto simp: detect_contacts_def)

lemma safe_int_12345: "safe_int lim (JStr ''12,345'') 0 = 12345"
  by (simp add: safe_int_def safe_int_try_def is_digit_def int_of_digits_def digit_val_def)

text \<open>
  Claim C10. When the first entry of \<^verbatim>\<open>UserModule.users\<close> is a user object that has a
  \<^verbatim>\<open>stats\<close> key of its own, the primary user is that object unchanged: its nested stats
  are the ones used, and the entry of \<^verbatim>\<open>UserModule.stats\<close> under the same key is ignored.
  Only when the user object has no \<^verbatim>\<open>stats\<close> key is the module-level entry (a dict, the
  empty dict when it is missing) added under that key; a module-level entry that is not a dict
  is never added.
\<close>

theorem select_primary_user_prefers_nested_stats:
  assumes "deep_get data [JStr ''UserModule'', JStr ''users''] (JObj []) = JObj ((k, JObj u) # others)"
  shows "(py_in ''stats'' u \<longrightarrow> select_primary_user data = Inr u) \<and>
         (\<not> py_in ''stats'' u \<longrightarrow>
            select_primary_user data =
              (case deep_get data [JStr ''UserModule'', JStr ''stats'', k] (JObj []) of
                 JObj st \<Rightarrow> Inr (u @ [(JStr ''stats'', JObj st)])
               | _ \<Rightarrow> Inr u))"
  using select_primary_user_first_entry [OF assms]
  by (auto simp: py_setdefault_def split: json.splits)

theorem select_primary_user_prefers_nested_stats_witness:
  "py_in ''stats'' [(JStr ''uniqueId'', JStr ''jane''),
            (JStr ''stats'', JObj [(JStr ''followerCount'', JInt 5)])] \<and>
   select_primary_user (JObj [(JStr ''UserModule'', JObj
       [(JStr ''users'', JObj [(JStr ''42'', JObj [(JStr ''uniqueId'', JStr ''jane''),
            (JStr ''stats'', JObj [(JStr ''followerCount'', JInt 5)])])]),
        (JStr ''stats'', JObj [(JStr ''42'', JObj [(JStr ''followerCount'', JStr ''12,345'')])])])]) =
   Inr [(JStr ''uniqueId'', JStr ''jane''),
            (JStr ''stats'', JObj [(JStr ''followerCount'', JInt 5)])]"
proof -
  let ?u = "[(JStr ''uniqueId'', JStr ''jane''),
            (JStr ''stats'', JObj [(JStr ''followerCount'', JInt 5)])]"
  let ?data = "JObj [(JStr ''UserModule'', JObj
       [(JStr ''users'', JObj [(JStr ''42'', JObj ?u)]),
        (JStr ''stats'', JObj [(JStr ''42'', JObj [(JStr ''followerCount'', JStr ''12,345'')])])])]"
  have h1: "deep_get ?data [JStr ''UserModule'', JStr ''users''] (JObj []) = JObj ((JStr ''42'', JObj ?u) # [])"
    by simp
  have h2: "py_in ''stats'' ?u" by (simp add: py_in_def)
  from select_primary_user_prefers_nested_stats [OF h1] h2
  have "select_primary_user ?data = Inr ?u" by blast
  with h2 show ?thesis by blast
qed

text \<open>
  Claim C1, as stated: whenever the single entry of \<^verbatim>\<open>UserModule.users\<close> has \<^verbatim>\<open>uniqueId\<close>
  equal to \<open>jane\<close> and the entry of \<^verbatim>\<open>UserModule.stats\<close> under the same key has
  \<^verbatim>\<open>followerCount\<close> equal to \<open>12,345\<close>, extraction returns a record with \<open>username\<close> \<open>jane\<close>
  and \<open>followers\<close> \<open>12345\<close>. Three such documents where it does not: a user entry with a
  \<^verbatim>\<open>stats\<close> of its own (\<^verbatim>\<open>followerCount\<close> 5), which is used in place of the module-level
  one, so \<open>followers\<close> is 5; a user entry whose \<^verbatim>\<open>signature\<close> is the number 5, for which
  contact detection raises and no record is returned; a user entry with a nested \<^verbatim>\<open>user\<close>
  object, which is read in place of the entry, so the \<open>username\<close> is the one of the URL.
\<close>

theorem users_entry_with_own_fields_counterexample:
  "map_sum id followers
     (parse_user_from_html
        (sample_externals (Some (JObj [(JStr ''UserModule'', JObj
           [(JStr ''users'', JObj [(JStr ''42'', JObj
              [(JStr ''uniqueId'', JStr ''jane''),
               (JStr ''stats'', JObj [(JStr ''followerCount'', JInt 5)])])]),
            (JStr ''stats'', JObj [(JStr ''42'', JObj
              [(JStr ''followerCount'', JStr ''12,345'')])])])])) [])
        ''https://www.tiktok.com/@jane'' ''<html>'') = Inr 5 \<and>
   parse_user_from_html
     (sample_externals (Some (JObj [(JStr ''UserModule'', JObj
        [(JStr ''users'', JObj [(JStr ''42'', JObj
           [(JStr ''uniqueId'', JStr ''jane''), (JStr ''signature'', JInt 5)])]),
         (JStr ''stats'', JObj [(JStr ''42'', JObj
           [(JStr ''followerCount'', JStr ''12,345'')])])])])) [])
     ''https://www.tiktok.com/@jane'' ''<html>'' = Inl TypeError \<and>
   map_sum id username
     (parse_user_from_html
        (sample_externals (Some (JObj [(JStr ''UserModule'', JObj
           [(JStr ''users'', JObj [(JStr ''42'', JObj
              [(JStr ''uniqueId'', JStr ''jane''),
               (JStr ''user'', JObj [(JStr ''nickname'', JStr ''J'')])])]),
            (JStr ''stats'', JObj [(JStr ''42'', JObj
              [(JStr ''followerCount'', JStr ''12,345'')])])])])) [])
        ''https://www.tiktok.com/@bob'' ''<html>'') = Inr (JStr ''bob'')"
  by code_simp

text \<open>
  Claim C1, amended. Let the content be not empty and its embedded state decode to a blob whose
  \<^verbatim>\<open>UserModule.users\<close> has exactly one entry, a user object with \<^verbatim>\<open>uniqueId\<close> equal to
  \<open>jane\<close>, and whose \<^verbatim>\<open>UserModule.stats\<close> has under the same key a stats object with
  \<^verbatim>\<open>followerCount\<close> equal to \<open>12,345\<close>. Let the user object have no \<^verbatim>\<open>stats\<close> key and no
  \<^verbatim>\<open>user\<close> key of its own, and let its \<^verbatim>\<open>signature\<close> be missing, empty (any falsy
  value) or text. Then extraction returns a record with \<open>username\<close> \<open>jane\<close> and \<open>followers\<close>
  \<open>12345\<close>, whatever the URL and the other fields.
\<close>

theorem users_entry_with_matching_stats:
  assumes content: "html \<noteq> []"
    and blob: "parse_from_sigi_state ext html = blob"
    and users: "deep_get blob [JStr ''UserModule'', JStr ''users''] (JObj []) = JObj [(k, JObj u)]"
    and stats: "deep_get blob [JStr ''UserModule'', JStr ''stats'', k] (JObj []) = JObj st"
    and uid: "py_get u ''uniqueId'' = JStr ''jane''"
    and count: "py_get st ''followerCount'' = JStr ''12,345''"
    and plain: "\<not> py_in ''stats'' u" "\<not> py_in ''user'' u"
    and bio_ok: "\<not> truthy (py_get_default u ''signature'' (JStr [])) \<or>
                 (\<exists>s. py_get_default u ''signature'' (JStr []) = JStr s)"
  shows "\<exists>r. parse_user_from_html ext url0 html = Inr r \<and>
             username r = JStr ''jane'' \<and> followers r = 12345"
proof -
  let ?m = "u @ [(JStr ''stats'', JObj st)]"
  have t: "truthy blob" using users by (rule deep_get_truthy)
  have sel: "select_primary_user blob = Inr ?m"
    using select_primary_user_first_entry [OF users] stats plain
    by (simp add: py_setdefault_absent)
  have st_in: "py_in ''followerCount'' st"
    using count by (intro py_get_truthy_in) simp
  then have st_ne: "st \<noteq> []" by (auto simp: py_in_def)
  have ui: "user_info_of ?m = JObj ?m"
    using plain by (simp add: user_info_of_def py_in_append py_in_single)
  have so: "stats_of ?m = JObj st"
    using plain st_ne
    by (simp add: stats_of_def py_get_default_append py_or_def) (simp add: py_get_default_def)
  have bio: "py_get_default ?m ''signature'' (JStr []) = py_get_default u ''signature'' (JStr [])"
    by (simp add: py_get_default_append) (auto simp: py_get_default_def py_in_def)
  obtain c where "detect_contacts (py_get_default ?m ''signature'' (JStr [])) = Inr c"
    unfolding bio using detect_contacts_succeeds [OF bio_ok] by blast
  from build_user_succeeds [OF this]
  obtain r where r: "build_user ext url0 blob (JObj ?m) (JObj st) = Inr r" by blast
  have uid_in: "py_in ''uniqueId'' u"
    using uid by (intro py_get_truthy_in) simp
  have "username r = JStr ''jane''"
    using build_user_fields(1) [OF r] uid uid_in by (simp add: py_get_append py_or_def)
  moreover have "followers r = 12345"
    using build_user_fields(3) [OF r] count by (simp add: py_or_def safe_int_12345)
  moreover have "parse_user_from_html ext url0 html = Inr r"
    using content blob t sel ui so r
    by (simp add: parse_user_from_html_def parse_user_from_structured_json_def)
  ultimately show ?thesis by blast
qed

theorem users_entry_with_matching_stats_witness:
  "\<exists>r. parse_user_from_html
          (sample_externals (Some (JObj [(JStr ''UserModule'', JObj
             [(JStr ''users'', JObj [(JStr ''42'', JObj [(JStr ''uniqueId'', JStr ''jane'')])]),
              (JStr ''stats'', JObj [(JStr ''42'', JObj [(JStr ''followerCount'', JStr ''12,345'')])])])])) [])
          ''https://www.tiktok.com/@jane'' ''<html>'' = Inr r \<and>
        username r = JStr ''jane'' \<and> followers r = 12345"
proof -
  let ?blob = "JObj [(JStr ''UserModule'', JObj
             [(JStr ''users'', JObj [(JStr ''42'', JObj [(JStr ''uniqueId'', JStr ''jane'')])]),
              (JStr ''stats'', JObj [(JStr ''42'', JObj [(JStr ''followerCount'', JStr ''12,345'')])])])]"
  let ?ext = "sample_externals (Some ?blob) []"
  show ?thesis
  proof (rule users_entry_with_matching_stats
      [of "''<html>''" ?ext ?blob "JStr ''42''" "[(JStr ''uniqueId'', JStr ''jane'')]"
          "[(JStr ''followerCount'', JStr ''12,345'')]"])
    show "''<html>'' \<noteq> []" by simp
    show "parse_from_sigi_state ?ext ''<html>'' = ?blob"
      by (simp add: parse_from_sigi_state_def sample_externals_def)
    show "deep_get ?blob [JStr ''UserModule'', JStr ''users''] (JObj []) =
            JObj [(JStr ''42'', JObj [(JStr ''uniqueId'', JStr ''jane'')])]"
      by simp
    show "deep_get ?blob [JStr ''UserModule'', JStr ''stats'', JStr ''42''] (JObj []) =
            JObj [(JStr ''followerCount'', JStr ''12,345'')]"
      by simp
    show "py_get [(JStr ''uniqueId'', JStr ''jane'')] ''uniqueId'' = JStr ''jane''"
      by (simp add: py_get_def)
    show "py_get [(JStr ''followerCount'', JStr ''12,345'')] ''followerCount'' = JStr ''12,345''"
      by (simp add: py_get_def)
    show "\<not> py_in ''stats'' [(JStr ''uniqueId'', JStr ''jane'')]"
      by (simp add: py_in_def)
    show "\<not> py_in ''user'' [(JStr ''uniqueId'', JStr ''jane'')]"
      by (simp add: py_in_def)
    show "\<not> truthy (py_get_default [(JStr ''uniqueId'', JStr ''jane'')] ''signature'' (JStr [])) \<or>
          (\<exists>s. py_get_default [(JStr ''uniqueId'', JStr ''jane'')] ''signature'' (JStr []) = JStr s)"
      by (simp add: py_get_default_def)
  qed
qed

text \<open>
  Claim C3, as stated: a user object without the largest avatar variant, with a medium and a
  thumbnail variant, gets the medium one. It gets the thumbnail: the code tries
  \<^verbatim>\<open>avatarLarger\<close>, then \<^verbatim>\<open>avatarThumb\<close>, then \<^verbatim>\<open>avatarMedium\<close>.
\<close>

theorem avatar_medium_counterexample:
  "map_sum id avatar
     (parse_user_from_html
        (sample_externals (Some (JObj [(JStr ''UserModule'', JObj
           [(JStr ''users'', JObj [(JStr ''42'', JObj
              [(JStr ''uniqueId'', JStr ''jane''),
               (JStr ''avatarMedium'', JStr ''medium.jpg''),
               (JStr ''avatarThumb'', JStr ''thumb.jpg'')])])])])) [])
        ''https://www.tiktok.com/@jane'' ''<html>'') = Inr (JStr ''thumb.jpg'')"
  by (simp add: parse_user_from_html_def parse_user_from_structured_json_def
      parse_from_sigi_state_def sample_externals_def select_primary_user_def py_dict_def
      py_setdefault_def py_in_def user_info_of_def stats_of_def py_get_default_def py_or_def
      build_user_def detect_contacts_def py_get_def Let_def)

text \<open>
  Claim C3, amended. In the embedded-state strategy the avatar of the record is the first
  non-empty value among the largest variant, the thumbnail variant and the medium variant of
  the user object, in this order, and the empty string when there is none: for every user
  object whose largest variant is missing or empty and whose thumbnail variant is present and
  not empty, the thumbnail is selected, with or without a medium variant.
\<close>

theorem avatar_prefers_thumbnail_over_medium:
  assumes "parse_user_from_structured_json ext url0 html = Inr (Some r)"
    and "select_primary_user (parse_from_sigi_state ext html) = Inr user_data"
    and "user_info_of user_data = JObj u"
  shows "avatar r = py_or (py_get u ''avatarLarger'')
                      (py_or (py_get u ''avatarThumb'') (py_or (py_get u ''avatarMedium'') (JStr []))) \<and>
         (\<not> truthy (py_get u ''avatarLarger'') \<and> truthy (py_get u ''avatarThumb'') \<longrightarrow>
            avatar r = py_get u ''avatarThumb'')"
proof -
  from assms have "build_user ext url0 (parse_from_sigi_state ext html) (JObj u) (stats_of user_data) = Inr r"
    by (auto simp: parse_user_from_structured_json_def Let_def map_sum_def split: if_splits sum.splits)
  from build_user_fields(2) [OF this] show ?thesis
    by (simp add: py_or_def)
qed

theorem avatar_prefers_thumbnail_over_medium_witness:
  "\<exists>r. parse_user_from_structured_json
          (sample_externals (Some (JObj [(JStr ''UserModule'', JObj
             [(JStr ''users'', JObj [(JStr ''42'', JObj
                [(JStr ''uniqueId'', JStr ''jane''),
                 (JStr ''avatarMedium'', JStr ''medium.jpg''),
                 (JStr ''avatarThumb'', JStr ''thumb.jpg'')])])])])) [])
          ''https://www.tiktok.com/@jane'' ''<html>'' = Inr (Some r) \<and>
        avatar r = JStr ''thumb.jpg''"
proof -
  let ?u = "[(JStr ''uniqueId'', JStr ''jane''),
                 (JStr ''avatarMedium'', JStr ''medium.jpg''),
                 (JStr ''avatarThumb'', JStr ''thumb.jpg'')]"
  let ?m = "[(JStr ''uniqueId'', JStr ''jane''),
                 (JStr ''avatarMedium'', JStr ''medium.jpg''),
                 (JStr ''avatarThumb'', JStr ''thumb.jpg''),
                 (JStr ''stats'', JObj [])]"
  let ?blob = "JObj [(JStr ''UserModule'', JObj [(JStr ''users'', JObj [(JStr ''42'', JObj ?u)])])]"
  let ?ext = "sample_externals (Some ?blob) []"
  have b: "parse_from_sigi_state ?ext ''<html>'' = ?blob"
    by (simp add: parse_from_sigi_state_def sample_externals_def)
  have sel: "select_primary_user ?blob = Inr ?m"
    by (simp add: select_primary_user_def py_dict_def py_setdefault_def py_in_def)
  have ui: "user_info_of ?m = JObj ?m"
    by (simp add: user_info_of_def py_in_def)
  have so: "stats_of ?m = JObj []"
    by (simp add: stats_of_def py_get_default_def py_or_def)
  have "detect_contacts (py_get_default ?m ''signature'' (JStr [])) = Inr (False, False)"
    by (simp add: py_get_default_def detect_contacts_def)
  from build_user_succeeds [OF this]
  obtain r where r: "build_user ?ext ''https://www.tiktok.com/@jane'' ?blob (JObj ?m) (JObj []) = Inr r"
    by blast
  have p: "parse_user_from_structured_json ?ext ''https://www.tiktok.com/@jane'' ''<html>'' = Inr (Some r)"
    using r by (simp add: parse_user_from_structured_json_def b sel ui so)
  have sel': "select_primary_user (parse_from_sigi_state ?ext ''<html>'') = Inr ?m"
    unfolding b by (rule sel)
  note t = avatar_prefers_thumbnail_over_medium [OF p sel' ui]
  have h1: "\<not> truthy (py_get ?m ''avatarLarger'')" by (simp add: py_get_def)
  have h2: "truthy (py_get ?m ''avatarThumb'')" by (simp add: py_get_def)
  from t h1 h2 have "avatar r = py_get ?m ''avatarThumb''" by blast
  then have "avatar r = JStr ''thumb.jpg''" by (simp add: py_get_def)
  with p show ?thesis by blast
qed

section \<open>Properties of the metadata strategy\<close>

lemma title_match: "rx_match TITLE_RE ''Jane Doe (@jane)'' = Some [8, 1, 1, 1, 4, 1]"
  by (simp add: TITLE_RE_def lit_def one_def candidates_def is_space_def)

text \<open>
  Claim C6. For content that is not empty, has no decodable embedded state, and has the
  metadata title \<open>Jane Doe (@jane)\<close>, and for a URL from which no username is derived,
  extraction returns a record with \<open>nickname\<close> \<open>Jane Doe\<close>, \<open>username\<close> \<open>jane\<close> (the handle of
  the title) and \<open>followers\<close> \<open>0\<close>.
\<close>

theorem title_gives_nickname_and_handle:
  assumes "html \<noteq> []"
    and "parse_from_sigi_state ext html = JObj []"
    and "og ext html ''title'' = ''Jane Doe (@jane)''"
    and "extract_username_from_url url0 = []"
  shows "\<exists>r. parse_user_from_html ext url0 html = Inr r \<and>
             nickname r = JStr ''Jane Doe'' \<and> username r = JStr ''jane'' \<and> followers r = 0"
  using assms
  by (simp add: parse_user_from_html_def parse_user_from_structured_json_def
      parse_from_open_graph_def title_match span_def py_strip_def is_space_def
      detect_contacts_text default_user_def Let_def)

theorem title_gives_nickname_and_handle_witness:
  "\<exists>r. parse_user_from_html (sample_externals None ''Jane Doe (@jane)'')
          ''https://example.com/profile'' ''<html>'' = Inr r \<and>
        nickname r = JStr ''Jane Doe'' \<and> username r = JStr ''jane'' \<and> followers r = 0"
proof (rule title_gives_nickname_and_handle)
  show "''<html>'' \<noteq> []" by simp
  show "parse_from_sigi_state (sample_externals None ''Jane Doe (@jane)'') ''<html>'' = JObj []"
    by (simp add: parse_from_sigi_state_def sample_externals_def)
  show "og (sample_externals None ''Jane Doe (@jane)'') ''<html>'' ''title'' = ''Jane Doe (@jane)''"
    by (simp add: og_def sample_externals_def)
  show "extract_username_from_url ''https://example.com/profile'' = []"
    by (simp add: extract_username_from_url_def username_match_def py_strip_def is_space_def
      before_first_def rx_search_def USERNAME_RE_def lit_def one_def candidates_def span_def)
qed

section \<open>Properties of the regular expressions\<close>

lemma first_some_None_iff: "first_some f xs = None \<longleftrightarrow> (\<forall>x \<in> set xs. f x = None)"
  by (induction xs) (auto split: option.splits)

lemma set_candidates:
  "set (candidates lo hi g run) =
     {k. lo \<le> k \<and> k \<le> run \<and> (case hi of None \<Rightarrow> True | Some h \<Rightarrow> k \<le> h)}"
  by (auto simp: candidates_def Let_def split: option.splits)

lemma candidates_one:
  "candidates (Suc 0) (Some (Suc 0)) True run = (if 1 \<le> run then [1] else [])"
  by (simp add: candidates_def Let_def)

lemma candidates_optional:
  "candidates 0 (Some (Suc 0)) True run = (if 1 \<le> run then [1, 0] else [0])"
  by (simp add: candidates_def Let_def)

lemma candidates_greedy: "lo \<le> run \<Longrightarrow> candidates lo None True run = run # rev [lo..<run]"
  by (simp add: candidates_def Let_def)

lemma candidates_short: "run < lo \<Longrightarrow> candidates lo hi g run = []"
  by (simp add: candidates_def Let_def split: option.splits)

lemma rx_match_one:
  "rx_match (one cls # rest) s =
     (case s of [] \<Rightarrow> None
      | x # xs \<Rightarrow> if cls x then map_option ((#) 1) (rx_match rest xs) else None)"
  by (cases s) (auto simp: one_def candidates_one split: option.splits)

lemma rx_match_lit:
  "rx_match (lit c # rest) s =
     (case s of [] \<Rightarrow> None
      | x # xs \<Rightarrow> if x = c then map_option ((#) 1) (rx_match rest xs) else None)"
  by (simp add: lit_def rx_match_one)

lemma first_some_shift:
  "first_some (\<lambda>i. map_option (Pair i) (rx_match p (drop i (c # s)))) (map Suc xs) =
     map_option (\<lambda>(i, ks). (Suc i, ks))
       (first_some (\<lambda>i. map_option (Pair i) (rx_match p (drop i s))) xs)"
  by (induction xs) (auto split: option.splits)

lemma rx_search_Nil: "rx_search p [] = map_option (Pair 0) (rx_match p [])"
  by (simp add: rx_search_def split: option.splits)

lemma rx_search_Cons:
  "rx_search p (c # s) =
     (case rx_match p (c # s) of
        Some ks \<Rightarrow> Some (0, ks)
      | None \<Rightarrow> map_option (\<lambda>(i, ks). (Suc i, ks)) (rx_search p s))"
proof -
  have "[0..<Suc (length (c # s))] = 0 # map Suc [0..<Suc (length s)]"
    by (simp add: upt_conv_Cons map_Suc_upt del: upt_Suc)
  then have "rx_search p (c # s) =
      first_some (\<lambda>i. map_option (Pair i) (rx_match p (drop i (c # s))))
        (0 # map Suc [0..<Suc (length s)])"
    unfolding rx_search_def by (rule arg_cong)
  then show ?thesis
    by (simp add: first_some_shift rx_search_def split: option.splits del: upt_Suc)
qed

section \<open>Properties of username derivation\<close>

lemma rx_match_optional_last:
  "rx_match [Rep cls 0 (Some (Suc 0)) True] s = Some [min 1 (length (takeWhile cls s))]"
  by (auto simp: candidates_optional Suc_le_eq)

lemma rx_match_handle:
  "rx_match [Rep (\<lambda>c. c \<noteq> CHR ''/'') (Suc 0) None True,
             Rep (\<lambda>c. c = CHR ''/'') 0 (Some (Suc 0)) True] r =
     (if takeWhile (\<lambda>c. c \<noteq> CHR ''/'') r = [] then None
      else Some [length (takeWhile (\<lambda>c. c \<noteq> CHR ''/'') r),
                 min 1 (length (takeWhile (\<lambda>c. c = CHR ''/'')
                   (drop (length (takeWhile (\<lambda>c. c \<noteq> CHR ''/'') r)) r)))])"
proof (cases "takeWhile (\<lambda>c. c \<noteq> CHR ''/'') r = []")
  case True
  then show ?thesis by (simp add: candidates_short)
next
  case False
  then have "1 \<le> length (takeWhile (\<lambda>c. c \<noteq> CHR ''/'') r)"
    by (simp add: Suc_le_eq)
  from candidates_greedy [OF this] False show ?thesis
    using rx_match_optional_last [of "\<lambda>c. c = CHR ''/''"]
    by simp
qed

lemma rx_match_username:
  "rx_match USERNAME_RE s =
     (case s of
        c # d # r \<Rightarrow>
          if c = CHR ''/'' \<and> d = CHR ''@'' \<and> takeWhile (\<lambda>c. c \<noteq> CHR ''/'') r \<noteq> []
          then Some [1, 1, length (takeWhile (\<lambda>c. c \<noteq> CHR ''/'') r),
                     min 1 (length (takeWhile (\<lambda>c. c = CHR ''/'')
                       (drop (length (takeWhile (\<lambda>c. c \<noteq> CHR ''/'') r)) r)))]
          else None
      | _ \<Rightarrow> None)"
  unfolding USERNAME_RE_def
  by (auto simp: rx_match_lit rx_match_handle split: list.splits simp del: rx_match.simps(2))

lemma username_match_Nil: "username_match [] = []"
  by (simp add: username_match_def rx_search_Nil rx_match_username)

lemma username_match_Cons:
  "username_match (c # s) =
     (if c = CHR ''/'' \<and> prefix ''@'' s \<and> takeWhile (\<lambda>c. c \<noteq> CHR ''/'') (tl s) \<noteq> []
      then takeWhile (\<lambda>c. c \<noteq> CHR ''/'') (tl s)
      else username_match s)"
proof (cases "rx_match USERNAME_RE (c # s)")
  case None
  then have "\<not> (c = CHR ''/'' \<and> prefix ''@'' s \<and> takeWhile (\<lambda>c. c \<noteq> CHR ''/'') (tl s) \<noteq> [])"
    by (auto simp: rx_match_username prefix_def split: list.splits if_splits)
  with None show ?thesis
    by (auto simp: username_match_def rx_search_Cons split: option.splits)
next
  case (Some ks)
  then obtain r where s: "s = CHR ''@'' # r" and c: "c = CHR ''/''"
    and h: "takeWhile (\<lambda>c. c \<noteq> CHR ''/'') r \<noteq> []"
    and ks: "ks = [1, 1, length (takeWhile (\<lambda>c. c \<noteq> CHR ''/'') r),
                   min 1 (length (takeWhile (\<lambda>c. c = CHR ''/'')
                     (drop (length (takeWhile (\<lambda>c. c \<noteq> CHR ''/'') r)) r)))]"
    by (auto simp: rx_match_username split: list.splits if_splits)
  have "span ks 2 3 (c # s) = takeWhile (\<lambda>c. c \<noteq> CHR ''/'') r"
    unfolding ks s by (simp add: span_def takeWhile_eq_take [symmetric])
  with Some s c h show ?thesis
    by (simp add: username_match_def rx_search_Cons)
qed

lemma split_on_not_Nil: "split_on sep s \<noteq> []"
  by (induction s) (auto split: list.splits)

lemma hd_split_on: "hd (split_on sep s) = takeWhile (\<lambda>c. c \<noteq> sep) s"
  by (induction s) (auto split: list.splits simp: split_on_not_Nil)

lemma tl_split_on_Cons: "c \<noteq> sep \<Longrightarrow> tl (split_on sep (c # s)) = tl (split_on sep s)"
  by (auto split: list.splits simp: split_on_not_Nil)

lemma handles_Nil: "handles [] = []"
  by (simp add: handles_def)

lemma handles_Cons:
  "handles (c # s) =
     (if c = CHR ''/''
      then (if prefix ''@'' s then [takeWhile (\<lambda>c. c \<noteq> CHR ''/'') (tl s)] else []) @ handles s
      else handles s)"
proof (cases "c = CHR ''/''")
  case False
  then show ?thesis by (simp add: handles_def tl_split_on_Cons del: split_on.simps)
next
  case True
  let ?p = "takeWhile (\<lambda>c. c \<noteq> CHR ''/'') s"
  have sp: "split_on CHR ''/'' s = ?p # tl (split_on CHR ''/'' s)"
    using split_on_not_Nil [of "CHR ''/''" s] hd_split_on [of "CHR ''/''" s]
    by (cases "split_on CHR ''/'' s") auto
  have p: "prefix ''@'' ?p = prefix ''@'' s"
    by (cases s) auto
  have t: "prefix ''@'' s \<Longrightarrow> tl ?p = takeWhile (\<lambda>c. c \<noteq> CHR ''/'') (tl s)"
    by (cases s) auto
  have "handles (c # s) = map tl (filter (prefix ''@'') (split_on CHR ''/'' s))"
    using True by (simp add: handles_def)
  also have "\<dots> = map tl (filter (prefix ''@'') (?p # tl (split_on CHR ''/'' s)))"
    using sp by simp
  also have "\<dots> = (if prefix ''@'' s then [takeWhile (\<lambda>c. c \<noteq> CHR ''/'') (tl s)] else []) @ handles s"
    by (simp add: handles_def p t)
  finally show ?thesis using True by simp
qed

lemma username_match_first_handle: "username_match s = first_handle s"
proof (induction s)
  case Nil
  show ?case by (simp add: username_match_Nil first_handle_def handles_Nil)
next
  case (Cons c s)
  then show ?case
    by (simp add: username_match_Cons first_handle_def handles_Cons)
qed

lemma no_slash_in_handles: "h \<in> set (handles s) \<Longrightarrow> CHR ''/'' \<notin> set h"
proof (induction s)
  case Nil
  then show ?case by (simp add: handles_Nil)
next
  case (Cons c s)
  then show ?case
    by (auto simp: handles_Cons split: if_splits dest: set_takeWhileD)
qed

lemma no_slash_in_first_handle: "CHR ''/'' \<notin> set (first_handle s)"
proof (cases "filter (\<lambda>h. h \<noteq> []) (handles s)")
  case Nil
  then show ?thesis by (simp add: first_handle_def)
next
  case (Cons h hs)
  then have "h \<in> set (filter (\<lambda>h. h \<noteq> []) (handles s))" by simp
  then have "h \<in> set (handles s)" by simp
  with Cons no_slash_in_handles [of h s] show ?thesis by (simp add: first_handle_def)
qed

text \<open>
  Claim C7, as stated: username derivation returns the text of a path segment that begins with
  the handle marker, and the empty string for a URL with no such segment. The second part
  fails for a URL whose authority begins with the marker (an empty userinfo): the only path
  segment of \<^verbatim>\<open>https://@example.com/x\<close> is \<open>x\<close>, and the derived username is
  \<open>example.com\<close>.
\<close>

theorem username_from_authority_counterexample:
  "extract_username_from_url ''https://@example.com/x'' = ''example.com'' \<and>
   path_segments ''https://@example.com/x'' = [''x'']"
  by code_simp

text \<open>
  Claim C7, amended. Trim the whitespace around the URL and cut it at the first \<open>?\<close> or \<open>#\<close>,
  so that query string and fragment play no part. Among the pieces of this text that follow a
  \<open>/\<close>, taken over the whole text and not only over the path of the URL, username derivation
  returns the text after the marker of the first piece that begins with the marker and has at
  least one more character; it returns the empty string when there is no such piece. The
  result never holds a separator.
\<close>

theorem username_is_first_handle:
  "extract_username_from_url url0 =
     first_handle (before_first CHR ''#'' (before_first CHR ''?'' (py_strip url0))) \<and>
   CHR ''/'' \<notin> set (extract_username_from_url url0)"
proof -
  have "extract_username_from_url url0 =
     first_handle (before_first CHR ''#'' (before_first CHR ''?'' (py_strip url0)))"
  proof (cases "py_strip url0 = []")
    case True
    then show ?thesis
      by (simp add: extract_username_from_url_def before_first_def first_handle_def handles_Nil)
  next
    case False
    then show ?thesis
      by (simp add: extract_username_from_url_def username_match_first_handle)
  qed
  then show ?thesis by (simp add: no_slash_in_first_handle)
qed

theorem username_is_first_handle_witness:
  "extract_username_from_url ''  https://www.tiktok.com/@user.name/video/123?x=/@bob#f '' =
     ''user.name''"
proof -
  have "first_handle (before_first CHR ''#'' (before_first CHR ''?''
          (py_strip ''  https://www.tiktok.com/@user.name/video/123?x=/@bob#f ''))) = ''user.name''"
    by (simp add: first_handle_def handles_def before_first_def py_strip_def is_space_def)
  with username_is_first_handle [of "''  https://www.tiktok.com/@user.name/video/123?x=/@bob#f ''"]
  show ?thesis by simp
qed

section \<open>Properties of contact detection\<close>

lemma rx_search_found:
  "rx_search p s \<noteq> None \<longleftrightarrow> (\<exists>i \<le> length s. rx_match p (drop i s) \<noteq> None)"
  by (auto simp: rx_search_def first_some_None_iff less_Suc_eq_le simp del: upt_Suc)

lemma rx_match_Rep_found:
  "rx_match (Rep cls lo hi g # rest) s \<noteq> None \<longleftrightarrow>
     (\<exists>k. lo \<le> k \<and> k \<le> length (takeWhile cls s) \<and>
          (case hi of None \<Rightarrow> True | Some h \<Rightarrow> k \<le> h) \<and>
          rx_match rest (drop k s) \<noteq> None)"
  by (auto simp: first_some_None_iff set_candidates)

lemma le_length_takeWhile:
  "k \<le> length (takeWhile P xs) \<longleftrightarrow> k \<le> length xs \<and> (\<forall>x \<in> set (take k xs). P x)"
proof (induction xs arbitrary: k)
  case Nil
  show ?case by simp
next
  case (Cons x xs)
  show ?case
  proof (cases k)
    case 0
    then show ?thesis by simp
  next
    case (Suc j)
    with Cons [of j] show ?thesis by auto
  qed
qed

text \<open>The tail of the phone pattern, after the first digit.\<close>

lemma phone_tail_found:
  "rx_match [Rep phone_char 7 None True, one is_digit] r \<noteq> None \<longleftrightarrow>
     (\<exists>mid x rest. r = mid @ x # rest \<and> 7 \<le> length mid \<and>
        (\<forall>c \<in> set mid. phone_char c) \<and> is_digit x)"
proof
  assume "rx_match [Rep phone_char 7 None True, one is_digit] r \<noteq> None"
  then obtain k where k: "7 \<le> k" "k \<le> length (takeWhile phone_char r)"
    and m: "rx_match [one is_digit] (drop k r) \<noteq> None"
    unfolding rx_match_Rep_found by auto
  from m obtain x rest where d: "drop k r = x # rest" and x: "is_digit x"
    by (auto simp: rx_match_one split: list.splits if_splits)
  from k(2) have all: "\<forall>c \<in> set (take k r). phone_char c" and len: "k \<le> length r"
    by (simp_all add: le_length_takeWhile)
  have "r = take k r @ drop k r" by simp
  then have "r = take k r @ x # rest" unfolding d .
  moreover have "7 \<le> length (take k r)" using k(1) len by simp
  ultimately show "\<exists>mid x rest. r = mid @ x # rest \<and> 7 \<le> length mid \<and>
        (\<forall>c \<in> set mid. phone_char c) \<and> is_digit x"
    using all x by blast
next
  assume "\<exists>mid x rest. r = mid @ x # rest \<and> 7 \<le> length mid \<and>
        (\<forall>c \<in> set mid. phone_char c) \<and> is_digit x"
  then obtain mid x rest where r: "r = mid @ x # rest" and len: "7 \<le> length mid"
    and all: "\<forall>c \<in> set mid. phone_char c" and x: "is_digit x"
    by blast
  have "length mid \<le> length (takeWhile phone_char r)"
    unfolding le_length_takeWhile using all r by simp
  moreover have "rx_match [one is_digit] (drop (length mid) r) \<noteq> None"
    using r x by (simp add: rx_match_one)
  ultimately show "rx_match [Rep phone_char 7 None True, one is_digit] r \<noteq> None"
    unfolding rx_match_Rep_found using len by auto
qed

lemma phone_digits_found:
  "rx_match [one is_digit, Rep phone_char 7 None True, one is_digit] s \<noteq> None \<longleftrightarrow>
     (\<exists>u rest. s = u @ rest \<and> 9 \<le> length u \<and> (\<forall>c \<in> set u. phone_char c) \<and>
        is_digit (hd u) \<and> is_digit (last u))"
proof
  assume "rx_match [one is_digit, Rep phone_char 7 None True, one is_digit] s \<noteq> None"
  then obtain d r where s: "s = d # r" and d: "is_digit d"
    and t: "rx_match [Rep phone_char 7 None True, one is_digit] r \<noteq> None"
    by (auto simp: rx_match_one split: list.splits if_splits)
  from t obtain mid x rest where r: "r = mid @ x # rest" and len: "7 \<le> length mid"
    and all: "\<forall>c \<in> set mid. phone_char c" and x: "is_digit x"
    unfolding phone_tail_found by blast
  let ?u = "d # mid @ [x]"
  have "s = ?u @ rest" using s r by simp
  moreover have "9 \<le> length ?u" using len by simp
  moreover have "\<forall>c \<in> set ?u. phone_char c"
    using all d x by (auto simp: phone_char_def)
  moreover have "is_digit (hd ?u)" "is_digit (last ?u)" using d x by simp_all
  ultimately show "\<exists>u rest. s = u @ rest \<and> 9 \<le> length u \<and> (\<forall>c \<in> set u. phone_char c) \<and>
        is_digit (hd u) \<and> is_digit (last u)"
    by blast
next
  assume "\<exists>u rest. s = u @ rest \<and> 9 \<le> length u \<and> (\<forall>c \<in> set u. phone_char c) \<and>
        is_digit (hd u) \<and> is_digit (last u)"
  then obtain u rest where s: "s = u @ rest" and len: "9 \<le> length u"
    and all: "\<forall>c \<in> set u. phone_char c" and h: "is_digit (hd u)" and l: "is_digit (last u)"
    by blast
  from len obtain d v where u: "u = d # v" by (cases u) auto
  with len have "v \<noteq> []" by auto
  then obtain mid x where v: "v = mid @ [x]" by (cases v rule: rev_cases) auto
  have "7 \<le> length mid" using len u v by simp
  moreover have "\<forall>c \<in> set mid. phone_char c" using all u v by simp
  moreover have "is_digit x" using l u v by simp
  ultimately have "rx_match [Rep phone_char 7 None True, one is_digit] (mid @ x # rest) \<noteq> None"
    unfolding phone_tail_found by blast
  moreover have "s = d # mid @ x # rest" "is_digit d" using s u v h by simp_all
  ultimately show "rx_match [one is_digit, Rep phone_char 7 None True, one is_digit] s \<noteq> None"
    by (auto simp: rx_match_one simp del: rx_match.simps(2))
qed

lemma phone_search_found:
  "rx_search PHONE_RE s \<noteq> None \<longleftrightarrow>
     (\<exists>pre u post. s = pre @ u @ post \<and> 9 \<le> length u \<and> (\<forall>c \<in> set u. phone_char c) \<and>
        is_digit (hd u) \<and> is_digit (last u))"
proof
  assume "rx_search PHONE_RE s \<noteq> None"
  then obtain i where "rx_match PHONE_RE (drop i s) \<noteq> None"
    unfolding rx_search_found by blast
  then obtain k where
    "rx_match [one is_digit, Rep phone_char 7 None True, one is_digit] (drop k (drop i s)) \<noteq> None"
    unfolding PHONE_RE_def rx_match_Rep_found by blast
  then obtain u post where d: "drop k (drop i s) = u @ post" and u: "9 \<le> length u"
    "\<forall>c \<in> set u. phone_char c" "is_digit (hd u)" "is_digit (last u)"
    unfolding phone_digits_found by blast
  have dd: "drop (k + i) s = u @ post" using d by simp
  have "s = take (k + i) s @ u @ post" unfolding dd [symmetric] by simp
  with u show "\<exists>pre u post. s = pre @ u @ post \<and> 9 \<le> length u \<and>
      (\<forall>c \<in> set u. phone_char c) \<and> is_digit (hd u) \<and> is_digit (last u)"
    by blast
next
  assume "\<exists>pre u post. s = pre @ u @ post \<and> 9 \<le> length u \<and> (\<forall>c \<in> set u. phone_char c) \<and>
        is_digit (hd u) \<and> is_digit (last u)"
  then obtain pre u post where s: "s = pre @ u @ post" and u: "9 \<le> length u"
    "\<forall>c \<in> set u. phone_char c" "is_digit (hd u)" "is_digit (last u)"
    by blast
  have d: "drop (length pre) s = u @ post" using s by simp
  from u have
    "rx_match [one is_digit, Rep phone_char 7 None True, one is_digit] (u @ post) \<noteq> None"
    unfolding phone_digits_found by blast
  then have "rx_match PHONE_RE (drop (length pre) s) \<noteq> None"
    unfolding PHONE_RE_def rx_match_Rep_found d
    by (intro exI [of _ 0]) simp
  moreover have "length pre \<le> length s" using s by simp
  ultimately show "rx_search PHONE_RE s \<noteq> None"
    unfolding rx_search_found by blast
qed

text \<open>
  Claim C8, as stated: \<open>hasPhone\<close> is true exactly when the bio has a run of at least nine
  digit, space or hyphen characters (after an optional \<open>+\<close>). The run must also begin and end
  with a digit: a bio of nine spaces is such a run, and \<open>hasPhone\<close> is false for it.
\<close>

theorem has_phone_nine_spaces_counterexample:
  "detect_contacts (JStr ''         '') = Inr (False, False) \<and>
   length ''         '' = 9 \<and> filter (\<lambda>c. \<not> phone_char c) ''         '' = []"
  by code_simp

text \<open>
  Claim C8, amended. For every bio text, \<open>hasPhone\<close> is true if and only if the bio contains a
  substring of at least nine characters, each a digit, a whitespace character or a hyphen, whose
  first and last characters are digits. A \<open>+\<close> before it is allowed and changes nothing.
  (\<open>hasEmail\<close> is the result of the search for the e-mail pattern.)
\<close>

theorem has_phone_iff_digit_bounded_run:
  "detect_contacts (JStr bio0) =
     Inr (bio0 \<noteq> [] \<and> rx_search EMAIL_RE bio0 \<noteq> None,
          \<exists>pre u post. bio0 = pre @ u @ post \<and> 9 \<le> length u \<and> (\<forall>c \<in> set u. phone_char c) \<and>
            is_digit (hd u) \<and> is_digit (last u))"
proof (cases "bio0 = []")
  case True
  then show ?thesis by (simp add: detect_contacts_def)
next
  case False
  then have "detect_contacts (JStr bio0) =
      Inr (rx_search EMAIL_RE bio0 \<noteq> None, rx_search PHONE_RE bio0 \<noteq> None)"
    by (simp add: detect_contacts_def)
  with False show ?thesis
    by (simp only: phone_search_found simp_thms)
qed

theorem has_phone_iff_digit_bounded_run_witness:
  "snd (projr (detect_contacts (JStr ''call +1 555-123-4567 now'')))"
proof -
  have "''call +1 555-123-4567 now'' = ''call +'' @ ''1 555-123-4567'' @ '' now'' \<and>
        9 \<le> length ''1 555-123-4567'' \<and> (\<forall>c \<in> set ''1 555-123-4567''. phone_char c) \<and>
        is_digit (hd ''1 555-123-4567'') \<and> is_digit (last ''1 555-123-4567'')"
    by (simp add: phone_char_def is_digit_def is_space_def)
  then have "\<exists>pre u post. ''call +1 555-123-4567 now'' = pre @ u @ post \<and> 9 \<le> length u \<and>
      (\<forall>c \<in> set u. phone_char c) \<and> is_digit (hd u) \<and> is_digit (last u)"
    by blast
  then show ?thesis
    unfolding has_phone_iff_digit_bounded_run [of "''call +1 555-123-4567 now''"] by simp
qed

end
